theory Spec2Isabelle
  imports Main
begin

section \<open>Strings\<close>

text \<open>
  A JavaScript string is a sequence of UTF-16 code units. A code unit is modelled as a
  natural number (the values above \<open>0xFFFF\<close> are not code units and never arise from
  a literal); \<open>asc\<close> turns an ASCII literal into its code units.
\<close>

type_synonym ustring = "nat list"

definition asc :: "string \<Rightarrow> ustring" where
  "asc s = map of_char s"

section \<open>telegramStore: the per-chat message store\<close>

record TelegramStoredMessage =
  messageId :: int
  msg_text :: ustring
  timestampMs :: int
  authorId :: "int option"
  authorUsername :: "ustring option"
  authorDisplay :: "ustring option"
  replyToMessageId :: "int option"

definition MAX_MESSAGES_PER_CHAT :: nat where
  "MAX_MESSAGES_PER_CHAT = 1000"

text \<open>\<open>messageStore\<close> is a \<open>Map<number, TelegramStoredMessage[]>\<close>, empty at start.\<close>

type_synonym messageStore = "int \<rightharpoonup> TelegramStoredMessage list"

definition addTelegramMessage ::
  "messageStore \<Rightarrow> int \<Rightarrow> TelegramStoredMessage \<Rightarrow> messageStore" where
  "addTelegramMessage store chatId message =
     (let existing = (case store chatId of None \<Rightarrow> [] | Some xs \<Rightarrow> xs);
          pushed = existing @ [message];
          spliced = (if length pushed > MAX_MESSAGES_PER_CHAT
                     then drop (length pushed - MAX_MESSAGES_PER_CHAT) pushed
                     else pushed)
      in store(chatId \<mapsto> spliced))"

definition getTelegramMessages :: "messageStore \<Rightarrow> int \<Rightarrow> TelegramStoredMessage list" where
  "getTelegramMessages store chatId = (case store chatId of None \<Rightarrow> [] | Some xs \<Rightarrow> xs)"

text \<open>A sequence of \<open>addTelegramMessage\<close> calls, each with its chat id and message.\<close>

fun addTelegramMessages ::
  "messageStore \<Rightarrow> (int \<times> TelegramStoredMessage) list \<Rightarrow> messageStore" where
  "addTelegramMessages store [] = store"
| "addTelegramMessages store ((chatId, message) # calls) =
     addTelegramMessages (addTelegramMessage store chatId message) calls"

text \<open>The messages a call sequence adds to one chat, in call order.\<close>

definition added_to :: "int \<Rightarrow> (int \<times> TelegramStoredMessage) list \<Rightarrow> TelegramStoredMessage list" where
  "added_to chatId calls = map snd (filter (\<lambda>call. fst call = chatId) calls)"

section \<open>Pagination state and the /more command\<close>

record LumaEvent =
  ev_id :: ustring
  ev_title :: ustring
  ev_url :: ustring
  ev_description :: "ustring option"
  ev_location :: "ustring option"
  ev_date :: "ustring option"
  ev_attendeeCount :: "int option"

text \<open>
  \<open>SearchState\<close> of pending.ts. The offset is created as 0 and only ever replaced by
  \<open>offset + 5\<close>, so it is a natural number; times are milliseconds since the epoch.
\<close>

record SearchState =
  s_events :: "LumaEvent list"
  s_topic :: ustring
  s_location :: "ustring option"
  s_offset :: nat
  s_expiresAt :: int

type_synonym searchState = "int \<rightharpoonup> SearchState"

text \<open>\<open>Array.prototype.slice(a, b)\<close> for indices \<open>0 \<le> a \<le> b\<close>; it never reads out of range.\<close>

definition slice :: "'a list \<Rightarrow> nat \<Rightarrow> nat \<Rightarrow> 'a list" where
  "slice xs a b = take (b - a) (drop a xs)"

text \<open>What a command handler sends with \<open>ctx.reply\<close>: the text and whether it asks for Markdown.\<close>

datatype reply = Reply ustring bool

definition msg_no_chat_id :: ustring where
  "msg_no_chat_id = 0x274C # asc '' Could not determine chat id.''"

definition msg_no_recent_search :: ustring where
  "msg_no_recent_search =
     0x274C # asc '' No recent search found. Please use /search_events first.'' @ [10, 10] @
     asc ''Example: /search_events on crypto in Dubai''"

definition msg_seen_all :: ustring where
  "msg_seen_all =
     0x2705 # asc '' You've seen all events from your last search. Try a new search!''"

text \<open>
  \<open>bot.command("more")\<close>. \<open>fmt\<close> is \<open>formatEventsForTelegram\<close> (its text depends on the
  locale and the current year); \<open>now1\<close> and \<open>now2\<close> are the two readings of \<open>Date.now()\<close>.
  \<open>ctx.chat?.id\<close> is \<open>None\<close> when undefined; \<open>!chatId\<close> also holds for 0.
\<close>

definition more_command ::
  "(LumaEvent list \<Rightarrow> nat \<Rightarrow> nat \<Rightarrow> ustring) \<Rightarrow> int \<Rightarrow> int \<Rightarrow> searchState \<Rightarrow> int option
     \<Rightarrow> searchState \<times> reply" where
  "more_command fmt now1 now2 ss chat =
     (case chat of
        None \<Rightarrow> (ss, Reply msg_no_chat_id False)
      | Some chatId \<Rightarrow>
          if chatId = 0 then (ss, Reply msg_no_chat_id False)
          else
            (case ss chatId of
               None \<Rightarrow> (ss, Reply msg_no_recent_search False)
             | Some state \<Rightarrow>
                 if s_expiresAt state < now1 then (ss, Reply msg_no_recent_search False)
                 else
                   let nextOffset = s_offset state + 5 in
                   if nextOffset \<ge> length (s_events state) then (ss, Reply msg_seen_all False)
                   else
                     let nextEvents = slice (s_events state) nextOffset (nextOffset + 5);
                         message = fmt nextEvents (length (s_events state)) nextOffset
                     in (ss(chatId \<mapsto> state\<lparr>s_offset := nextOffset,
                                               s_expiresAt := now2 + 60 * 60 * 1000\<rparr>),
                         Reply message True)))"

section \<open>The pending registries and Command Intake\<close>

text \<open>
  pending.ts: \<open>DiscordCallbackData\<close> and \<open>TelegramCallbackData\<close>. An optional or nullable
  field is an \<open>option\<close>. The two registries are \<open>Map<string, \<dots>>\<close> objects keyed by token.
\<close>

record DiscordCallbackData =
  d_applicationId :: ustring
  d_channelId :: ustring
  d_guildId :: "ustring option"
  d_lookbackMinutes :: int
  d_paymentMessageId :: "ustring option"
  d_expiresAt :: int

record TelegramCallbackData =
  t_chatId :: int
  t_threadId :: "int option"
  t_messageId :: "int option"
  t_paymentMessageId :: "int option"
  t_username :: "ustring option"
  t_lookbackMinutes :: "int option"
  t_topic :: "ustring option"
  t_location :: "ustring option"
  t_expiresAt :: int

type_synonym pendingDiscordCallbacks = "ustring \<rightharpoonup> DiscordCallbackData"
type_synonym pendingTelegramCallbacks = "ustring \<rightharpoonup> TelegramCallbackData"

text \<open>\<open>Map.prototype.set\<close>: it stores the value under the key, whatever was there before.\<close>

definition map_set :: "('k \<rightharpoonup> 'v) \<Rightarrow> 'k \<Rightarrow> 'v \<Rightarrow> ('k \<rightharpoonup> 'v)" where
  "map_set m k v = m(k \<mapsto> v)"

text \<open>\<open>String(n)\<close> for an integer \<open>n\<close> (chat ids and millisecond clocks are far below \<open>10^21\<close>).\<close>

function digits :: "nat \<Rightarrow> ustring" where
  "digits n = (if n < 10 then [48 + n] else digits (n div 10) @ [48 + n mod 10])"
  by pat_completeness auto
termination
  by (relation "measure id") auto

definition String_of_int :: "int \<Rightarrow> ustring" where
  "String_of_int i = (if i < 0 then 45 # digits (nat (- i)) else digits (nat i))"

text \<open>The token of telegram.ts: \<open>`${chatId}:${Date.now()}:${crypto.randomUUID()}`\<close>.\<close>

definition mint_token :: "int \<Rightarrow> int \<Rightarrow> ustring \<Rightarrow> ustring" where
  "mint_token chatId now uuid = String_of_int chatId @ [58] @ String_of_int now @ [58] @ uuid"

text \<open>
  What a Telegram command handler reads from \<open>ctx\<close>, and what its environment answers:
  the two clock readings, the random UUID, and the message id that \<open>ctx.reply\<close> returns for
  the payment prompt (\<open>None\<close> when the call rejects, which ends the handler).
\<close>

record tg_ctx =
  ctx_chatId :: "int option"
  ctx_threadId :: "int option"
  ctx_messageId :: "int option"
  ctx_username :: "ustring option"

record tg_env =
  env_now_token :: int
  env_uuid :: ustring
  env_prompt_id :: "int option"
  env_now_expiry :: int

text \<open>
  \<open>bot.command("summarise")\<close>. The lookback is read by \<open>extractLookback\<close> through
  \<open>validateLookback\<close> of ./lookback; its result (an error text or the minutes) is an input here.
  \<open>expiry\<close> is \<open>PAYMENT_CALLBACK_EXPIRY_MS\<close> of ./constants. The result is the registry after
  the handler.
\<close>

definition summarise_command ::
  "int \<Rightarrow> tg_env \<Rightarrow> pendingTelegramCallbacks \<Rightarrow> tg_ctx \<Rightarrow> ustring + int
     \<Rightarrow> pendingTelegramCallbacks" where
  "summarise_command expiry env pending ctx lookbackResult =
     (case lookbackResult of
        Inl err \<Rightarrow> pending
      | Inr lookbackMinutes \<Rightarrow>
          (case ctx_chatId ctx of
             None \<Rightarrow> pending
           | Some chatId \<Rightarrow>
               if chatId = 0 then pending
               else
                 let token = mint_token chatId (env_now_token env) (env_uuid env) in
                 (case env_prompt_id env of
                    None \<Rightarrow> pending
                  | Some message_id \<Rightarrow>
                      map_set pending token
                        \<lparr>t_chatId = chatId,
                         t_threadId = ctx_threadId ctx,
                         t_messageId = ctx_messageId ctx,
                         t_paymentMessageId = Some message_id,
                         t_username = ctx_username ctx,
                         t_lookbackMinutes = Some lookbackMinutes,
                         t_topic = None,
                         t_location = None,
                         t_expiresAt = env_now_expiry env + expiry\<rparr>)))"

text \<open>
  \<open>bot.command("search_events")\<close>, from the result of \<open>parseSearchEventsCommand\<close>: an
  error text, or the topic and the optional location.
\<close>

definition search_events_command ::
  "int \<Rightarrow> tg_env \<Rightarrow> pendingTelegramCallbacks \<Rightarrow> tg_ctx \<Rightarrow> ustring + (ustring \<times> ustring option)
     \<Rightarrow> pendingTelegramCallbacks" where
  "search_events_command expiry env pending ctx parseResult =
     (case parseResult of
        Inl err \<Rightarrow> pending
      | Inr (topic, location) \<Rightarrow>
          (case ctx_chatId ctx of
             None \<Rightarrow> pending
           | Some chatId \<Rightarrow>
               if chatId = 0 then pending
               else
                 let token = mint_token chatId (env_now_token env) (env_uuid env) in
                 (case env_prompt_id env of
                    None \<Rightarrow> pending
                  | Some message_id \<Rightarrow>
                      map_set pending token
                        \<lparr>t_chatId = chatId,
                         t_threadId = ctx_threadId ctx,
                         t_messageId = ctx_messageId ctx,
                         t_paymentMessageId = Some message_id,
                         t_username = ctx_username ctx,
                         t_lookbackMinutes = None,
                         t_topic = Some topic,
                         t_location = location,
                         t_expiresAt = env_now_expiry env + expiry\<rparr>)))"

text \<open>
  The payment-required branch of the background task of \<open>handleDiscordInteraction\<close>
  (\<open>if (requiresPayment) { \<dots> }\<close>): it posts the payment prompt as a follow-up, returns
  when that response is not ok, and otherwise records the pending entry under
  \<open>interaction.token\<close>. \<open>followup_ok\<close> is \<open>followupResponse.ok\<close>; \<open>followup_id\<close> is the
  \<open>id\<close> read from the response body, \<open>None\<close> when it is absent or the body does not parse.
\<close>

record discord_interaction =
  i_application_id :: ustring
  i_token :: ustring
  i_channel_id :: ustring
  i_guild_id :: "ustring option"

definition discord_requires_payment ::
  "int \<Rightarrow> int \<Rightarrow> bool \<Rightarrow> ustring option \<Rightarrow> pendingDiscordCallbacks \<Rightarrow> discord_interaction \<Rightarrow> int
     \<Rightarrow> pendingDiscordCallbacks" where
  "discord_requires_payment expiry now followup_ok followup_id pending interaction lookbackMinutes =
     (if \<not> followup_ok then pending
      else
        map_set pending (i_token interaction)
          \<lparr>d_applicationId = i_application_id interaction,
           d_channelId = i_channel_id interaction,
           d_guildId = i_guild_id interaction,
           d_lookbackMinutes = lookbackMinutes,
           d_paymentMessageId = followup_id,
           d_expiresAt = now + expiry\<rparr>)"

section \<open>The Payment Gate\<close>

text \<open>Prefix and substring tests: \<open>String.prototype.startsWith\<close> and \<open>includes\<close>.\<close>

fun starts_with :: "'a list \<Rightarrow> 'a list \<Rightarrow> bool" where
  "starts_with s [] = True"
| "starts_with [] (p # ps) = False"
| "starts_with (c # cs) (p # ps) = (c = p \<and> starts_with cs ps)"

fun str_includes :: "'a list \<Rightarrow> 'a list \<Rightarrow> bool" where
  "str_includes [] p = (p = [])"
| "str_includes (c # cs) p = (starts_with (c # cs) p \<or> str_includes cs p)"

record PaymentRequirement =
  pr_scheme :: ustring
  pr_resource :: ustring
  pr_description :: ustring
  pr_mimeType :: ustring
  pr_payTo :: ustring
  pr_maxAmountRequired :: ustring
  pr_maxTimeoutSeconds :: int
  pr_network :: ustring
  pr_asset :: ustring
  pr_extra_name :: ustring
  pr_extra_version :: ustring

text \<open>
  The configuration read from the environment, after the defaults and \<open>toLowerCase\<close> have
  been applied: \<open>payToAddress\<close>, \<open>agentBaseUrl\<close>, \<open>price\<close> and \<open>currency\<close>.
\<close>

record gate_config =
  payToAddress :: ustring
  agentBaseUrl :: ustring
  price :: ustring
  currency :: ustring

text \<open>
  The request as the gate reads it: the URL's path and query string, the \<open>X-PAYMENT\<close>
  header (\<open>None\<close> when absent) and the \<open>discord_callback\<close> query parameter.
\<close>

record gate_request =
  pathname :: ustring
  search :: ustring
  x_payment :: "ustring option"
  discord_callback :: "ustring option"

text \<open>
  Header names are case-insensitive; a \<open>Headers\<close> object is a map from the lower-case
  name. The worker's response body is opaque (\<open>'b\<close>); the gate's own bodies are the JSON
  objects it builds, all with \<open>x402Version\<close> 1.
\<close>

type_synonym headers = "ustring \<rightharpoonup> ustring"

datatype 'b gate_body =
    PaymentRequired "PaymentRequirement list" "ustring option" "ustring option"
  | WorkerBody 'b

record 'b http_response =
  status :: nat
  statusText :: ustring
  resp_headers :: headers
  body :: 'b

text \<open>
  The facilitator's answers. \<open>verify\<close> and \<open>settle\<close> may throw; a settlement carries its
  \<open>success\<close> flag and the text \<open>settleResponseHeader\<close> makes of it (\<open>settlement\<close> may also be
  missing, written \<open>NoSettlement\<close>).
\<close>

datatype verify_result = VerifyThrows | Verification bool "ustring option" "ustring option"

datatype settle_result = SettleThrows | NoSettlement | Settlement bool ustring

text \<open>The calls the gate makes to its collaborators, in order.\<close>

datatype gate_call = VerifyCall | WorkerCall | SettleCall | DiscordCallbackCall

text \<open>
  The collaborators: \<open>exact.evm.decodePayment\<close> (\<open>None\<close> when it throws),
  \<open>findMatchingPaymentRequirements\<close>, the facilitator client and the agent app.
\<close>

record ('p, 'b) gate_env =
  decodePayment :: "ustring \<Rightarrow> 'p option"
  findMatchingPaymentRequirements :: "PaymentRequirement list \<Rightarrow> 'p \<Rightarrow> PaymentRequirement option"
  facilitator_verify :: "'p \<Rightarrow> PaymentRequirement \<Rightarrow> verify_result"
  facilitator_settle :: "'p \<Rightarrow> PaymentRequirement \<Rightarrow> settle_result"
  app_fetch :: "gate_request \<Rightarrow> 'b http_response"

definition isSummariseEndpoint :: "ustring \<Rightarrow> bool" where
  "isSummariseEndpoint path =
     (str_includes path (asc ''summarise%20chat'') \<or> str_includes path (asc ''summarise chat'') \<or>
      str_includes path (asc ''summarise%20telegram%20chat'') \<or>
      str_includes path (asc ''summarise telegram chat''))"

definition isSearchEndpoint :: "ustring \<Rightarrow> bool" where
  "isSearchEndpoint path =
     (str_includes path (asc ''search%20luma%20events'') \<or> str_includes path (asc ''search luma events''))"

text \<open>The condition under which the server's \<open>fetch\<close> applies the gate to a request.\<close>

definition payment_gated :: "ustring \<Rightarrow> bool" where
  "payment_gated path =
     (str_includes path (asc ''/entrypoints/'') \<and> str_includes path (asc ''/invoke'') \<and>
      (isSummariseEndpoint path \<or> isSearchEndpoint path))"

definition sourceLabel :: "ustring \<Rightarrow> ustring" where
  "sourceLabel path =
     (if isSearchEndpoint path then asc ''Search Luma events''
      else if str_includes path (asc ''telegram'') then asc ''Summarise Telegram chat''
      else asc ''Summarise Discord channel'')"

text \<open>\<open>s.replace(/\/+$/, '')\<close> and \<open>s.replace(/^\/+/, '/')\<close>.\<close>

definition strip_trailing_slashes :: "ustring \<Rightarrow> ustring" where
  "strip_trailing_slashes s = rev (dropWhile (\<lambda>c. c = 47) (rev s))"

definition normalize_leading_slashes :: "ustring \<Rightarrow> ustring" where
  "normalize_leading_slashes s =
     (case s of [] \<Rightarrow> [] | c # cs \<Rightarrow> if c = 47 then 47 # dropWhile (\<lambda>c. c = 47) cs else s)"

definition fullEntrypointUrl :: "gate_config \<Rightarrow> gate_request \<Rightarrow> ustring" where
  "fullEntrypointUrl cfg req =
     strip_trailing_slashes (agentBaseUrl cfg) @ normalize_leading_slashes (pathname req) @ search req"

definition paymentRequirement :: "gate_config \<Rightarrow> gate_request \<Rightarrow> PaymentRequirement" where
  "paymentRequirement cfg req =
     \<lparr>pr_scheme = asc ''exact'',
      pr_resource = fullEntrypointUrl cfg req,
      pr_description = sourceLabel (pathname req) @ asc '' - Pay $'' @ price cfg @ asc '' '' @ currency cfg,
      pr_mimeType = asc ''application/json'',
      pr_payTo = payToAddress cfg,
      pr_maxAmountRequired = asc ''50000'',
      pr_maxTimeoutSeconds = 300,
      pr_network = asc ''base'',
      pr_asset = asc ''0x833589fCD6eDb6E08f4c7C32D4f71b54bdA02913'',
      pr_extra_name = asc ''USD Coin'',
      pr_extra_version = asc ''2''\<rparr>"

text \<open>\<open>Response.json(obj, { status: 402 })\<close>.\<close>

definition json_402 ::
  "PaymentRequirement list \<Rightarrow> ustring option \<Rightarrow> ustring option \<Rightarrow> 'b gate_body http_response" where
  "json_402 accepts err payer =
     \<lparr>status = 402, statusText = [],
      resp_headers = [asc ''content-type'' \<mapsto> asc ''application/json''],
      body = PaymentRequired accepts err payer\<rparr>"

text \<open>
  The response built after the settlement attempt: the worker's body, status and status
  text, its headers with \<open>Content-Type\<close> defaulted, and \<open>X-PAYMENT-RESPONSE\<close> set only when
  the settlement did not throw and reports success.
\<close>

definition responseWithHeader :: "'b http_response \<Rightarrow> settle_result \<Rightarrow> 'b gate_body http_response" where
  "responseWithHeader appResponse settlement =
     (let headers0 = resp_headers appResponse;
          headers1 = (if headers0 (asc ''content-type'') = None
                      then headers0(asc ''content-type'' \<mapsto> asc ''application/json'')
                      else headers0);
          headers2 = (case settlement of
                        Settlement True settlementHeader \<Rightarrow>
                          headers1(asc ''x-payment-response'' \<mapsto> settlementHeader)
                      | _ \<Rightarrow> headers1)
      in \<lparr>status = status appResponse, statusText = statusText appResponse,
          resp_headers = headers2, body = WorkerBody (body appResponse)\<rparr>)"

text \<open>\<open>return appResponse\<close>: the worker's response, unchanged.\<close>

definition returned_as_is :: "'b http_response \<Rightarrow> 'b gate_body http_response" where
  "returned_as_is appResponse =
     \<lparr>status = status appResponse, statusText = statusText appResponse,
      resp_headers = resp_headers appResponse, body = WorkerBody (body appResponse)\<rparr>"

text \<open>
  The gated branch of the server's \<open>fetch\<close>, for a request whose path satisfies
  \<open>payment_gated\<close>: the response and the collaborator calls made. An empty \<open>X-PAYMENT\<close>
  header is falsy, like an absent one.
\<close>

definition payment_gate ::
  "gate_config \<Rightarrow> ('p, 'b) gate_env \<Rightarrow> gate_request \<Rightarrow> 'b gate_body http_response \<times> gate_call list" where
  "payment_gate cfg env req =
     (let paymentRequirements = [paymentRequirement cfg req] in
      case x_payment req of
        None \<Rightarrow> (json_402 paymentRequirements None None, [])
      | Some hasPaymentHeader \<Rightarrow>
          if hasPaymentHeader = [] then (json_402 paymentRequirements None None, [])
          else
            (case decodePayment env hasPaymentHeader of
               None \<Rightarrow>
                 (json_402 paymentRequirements (Some (asc ''Invalid or malformed payment header'')) None, [])
             | Some decodedPayment \<Rightarrow>
                 (case findMatchingPaymentRequirements env paymentRequirements decodedPayment of
                    None \<Rightarrow>
                      (json_402 paymentRequirements
                         (Some (asc ''Unable to match payment requirements'')) None, [])
                  | Some selected \<Rightarrow>
                      (case facilitator_verify env decodedPayment selected of
                         VerifyThrows \<Rightarrow>
                           (json_402 paymentRequirements (Some (asc ''Failed to verify payment'')) None,
                            [VerifyCall])
                       | Verification isValid invalidReason payer \<Rightarrow>
                           if \<not> isValid then
                             (json_402 paymentRequirements
                                (Some (case invalidReason of
                                         None \<Rightarrow> asc ''Payment verification failed''
                                       | Some r \<Rightarrow> if r = [] then asc ''Payment verification failed'' else r))
                                payer,
                              [VerifyCall])
                           else
                             let appResponse = app_fetch env req in
                             if status appResponse \<ge> 400 then
                               (returned_as_is appResponse, [VerifyCall, WorkerCall])
                             else
                               let settlement = facilitator_settle env decodedPayment selected;
                                   response = responseWithHeader appResponse settlement;
                                   callback =
                                     (case discord_callback req of
                                        None \<Rightarrow> []
                                      | Some cb \<Rightarrow>
                                          if cb \<noteq> [] \<and> 200 \<le> status appResponse \<and> status appResponse < 300
                                          then [DiscordCallbackCall] else [])
                               in (response, [VerifyCall, WorkerCall, SettleCall] @ callback)))))"

text \<open>
  The end of the server's \<open>fetch\<close>: a request for a gated entrypoint goes through the
  gate, any other request that reaches this point goes to the agent app directly.
\<close>

definition entrypoint_fetch ::
  "gate_config \<Rightarrow> ('p, 'b) gate_env \<Rightarrow> gate_request \<Rightarrow> 'b gate_body http_response \<times> gate_call list" where
  "entrypoint_fetch cfg env req =
     (if payment_gated (pathname req) then payment_gate cfg env req
      else (returned_as_is (app_fetch env req), [WorkerCall]))"

section \<open>The regular expressions of the Dispatcher's sanitization\<close>

text \<open>
  \<open>is_ws\<close> is the class \<open>\s\<close> of a JavaScript regular expression, which is also what
  \<open>String.prototype.trim\<close> removes: white space and line terminators. \<open>^\<close> under the \<open>m\<close>
  flag matches at the start of the text and after a line terminator; \<open>.\<close> matches any
  code unit but a line terminator.
\<close>

definition is_ws :: "nat \<Rightarrow> bool" where
  "is_ws c = (c = 9 \<or> c = 10 \<or> c = 11 \<or> c = 12 \<or> c = 13 \<or> c = 32 \<or> c = 0xA0 \<or> c = 0x1680 \<or>
              (0x2000 \<le> c \<and> c \<le> 0x200A) \<or> c = 0x2028 \<or> c = 0x2029 \<or> c = 0x202F \<or>
              c = 0x205F \<or> c = 0x3000 \<or> c = 0xFEFF)"

definition is_line_terminator :: "nat \<Rightarrow> bool" where
  "is_line_terminator c = (c = 10 \<or> c = 13 \<or> c = 0x2028 \<or> c = 0x2029)"

definition is_digit :: "nat \<Rightarrow> bool" where
  "is_digit c = (48 \<le> c \<and> c \<le> 57)"

definition trim :: "ustring \<Rightarrow> ustring" where
  "trim s = rev (dropWhile is_ws (rev (dropWhile is_ws s)))"

definition line_start :: "nat option \<Rightarrow> bool" where
  "line_start prev = (case prev of None \<Rightarrow> True | Some c \<Rightarrow> is_line_terminator c)"

text \<open>
  Matching under the \<open>i\<close> flag (without \<open>u\<close>) compares canonical forms: a code unit is
  mapped to its upper case, unless that maps a non-ASCII unit to an ASCII one. The
  literals of the patterns below consist of ASCII characters, of Latin-1 letters and of
  caseless symbols; for those, two units have the same canonical form exactly when
  \<open>canonicalize\<close> agrees on them.
\<close>

definition canonicalize :: "nat \<Rightarrow> nat" where
  "canonicalize c =
     (if 97 \<le> c \<and> c \<le> 122 then c - 32
      else if 0xE0 \<le> c \<and> c \<le> 0xFE \<and> c \<noteq> 0xF7 then c - 32
      else c)"

fun starts_with_ci :: "ustring \<Rightarrow> ustring \<Rightarrow> bool" where
  "starts_with_ci s [] = True"
| "starts_with_ci [] (p # ps) = False"
| "starts_with_ci (c # cs) (p # ps) = (canonicalize c = canonicalize p \<and> starts_with_ci cs ps)"

fun includes_ci :: "ustring \<Rightarrow> ustring \<Rightarrow> bool" where
  "includes_ci [] p = (p = [])"
| "includes_ci (c # cs) p = (starts_with_ci (c # cs) p \<or> includes_ci cs p)"

text \<open>
  A pattern is modelled by its matcher: given the code unit before a position (\<open>None\<close> at
  the start of the text) and the text from that position on, the length of the match
  that starts there, if there is one. \<open>replace_first\<close> is \<open>String.prototype.replace\<close> with
  a pattern without the \<open>g\<close> flag: the leftmost match is replaced by what \<open>f\<close> makes of
  it. \<open>replace_all_cb\<close> is \<open>replace\<close> with a \<open>g\<close> pattern and a callback: the text is
  scanned from the left, every match is handed to the callback with its offset, and the
  scan resumes behind the match (\<open>k\<close> counts the code units of the current match still to
  be skipped; an empty match advances by one unit). The callback may keep a state, as the
  closure over \<open>firstGreetingIndex\<close> does. \<open>global_matches\<close> lists the matches of that scan.
\<close>

type_synonym regex = "nat option \<Rightarrow> ustring \<Rightarrow> nat option"

fun replace_first :: "regex \<Rightarrow> (ustring \<Rightarrow> ustring) \<Rightarrow> nat option \<Rightarrow> ustring \<Rightarrow> ustring" where
  "replace_first re f prev [] = (case re prev [] of None \<Rightarrow> [] | Some n \<Rightarrow> f [])"
| "replace_first re f prev (c # cs) =
     (case re prev (c # cs) of
        None \<Rightarrow> c # replace_first re f (Some c) cs
      | Some n \<Rightarrow> f (take n (c # cs)) @ drop n (c # cs))"

fun replace_all_cb ::
  "regex \<Rightarrow> ('st \<Rightarrow> ustring \<Rightarrow> nat \<Rightarrow> 'st \<times> ustring) \<Rightarrow> 'st \<Rightarrow> nat \<Rightarrow> nat \<Rightarrow> nat option \<Rightarrow> ustring
     \<Rightarrow> ustring" where
  "replace_all_cb re cb st off k prev [] =
     (if k = 0 then (case re prev [] of None \<Rightarrow> [] | Some n \<Rightarrow> snd (cb st [] off)) else [])"
| "replace_all_cb re cb st off (Suc k) prev (c # cs) = replace_all_cb re cb st (Suc off) k (Some c) cs"
| "replace_all_cb re cb st off 0 prev (c # cs) =
     (case re prev (c # cs) of
        None \<Rightarrow> c # replace_all_cb re cb st (Suc off) 0 (Some c) cs
      | Some 0 \<Rightarrow>
          (case cb st [] off of (st', r) \<Rightarrow> r @ c # replace_all_cb re cb st' (Suc off) 0 (Some c) cs)
      | Some (Suc n) \<Rightarrow>
          (case cb st (take (Suc n) (c # cs)) off of
             (st', r) \<Rightarrow> r @ replace_all_cb re cb st' (Suc off) n (Some c) cs))"

definition replace_all :: "regex \<Rightarrow> ustring \<Rightarrow> ustring \<Rightarrow> ustring" where
  "replace_all re r s = replace_all_cb re (\<lambda>st m off. (st, r)) () 0 0 None s"

fun global_matches :: "regex \<Rightarrow> nat \<Rightarrow> nat option \<Rightarrow> ustring \<Rightarrow> ustring list" where
  "global_matches re k prev [] =
     (if k = 0 then (case re prev [] of None \<Rightarrow> [] | Some n \<Rightarrow> [[]]) else [])"
| "global_matches re (Suc k) prev (c # cs) = global_matches re k (Some c) cs"
| "global_matches re 0 prev (c # cs) =
     (case re prev (c # cs) of
        None \<Rightarrow> global_matches re 0 (Some c) cs
      | Some 0 \<Rightarrow> [] # global_matches re 0 (Some c) cs
      | Some (Suc n) \<Rightarrow> take (Suc n) (c # cs) # global_matches re n (Some c) cs)"

text \<open>
  \<open>/^(Good (morning|afternoon|evening)![^\n]*)/m\<close>, and the same source with flags \<open>gm\<close>.
\<close>

definition greeting_at :: "ustring \<Rightarrow> bool" where
  "greeting_at s =
     (starts_with s (asc ''Good morning!'') \<or> starts_with s (asc ''Good afternoon!'') \<or>
      starts_with s (asc ''Good evening!''))"

definition not_newline :: "nat \<Rightarrow> bool" where
  "not_newline c = (c \<noteq> 10)"

definition greeting_re :: regex where
  "greeting_re prev s =
     (if line_start prev \<and> greeting_at s then Some (length (takeWhile not_newline s)) else None)"

text \<open>
  \<open>/^BULLET\s*(Good (morning|afternoon|evening)![^\n]*)/m\<close>, replaced by \<open>"$1"\<close>. The
  literal before \<open>\s*\<close> stands in the source file as the three code units U+201A,
  U+00C4, U+00A2; likewise \<open>check_mark\<close>, \<open>card\<close> and \<open>link\<close> below are the code units of
  the literals as the file has them.
\<close>

definition bullet :: ustring where
  "bullet = [0x201A, 0xC4, 0xA2]"

definition bullet_greeting_re :: regex where
  "bullet_greeting_re prev s =
     (if line_start prev \<and> starts_with s bullet then
        let s1 = dropWhile is_ws (drop (length bullet) s) in
        if greeting_at s1 then Some (length s - length (dropWhile not_newline s1)) else None
      else None)"

definition bullet_group1 :: "ustring \<Rightarrow> ustring" where
  "bullet_group1 matched = dropWhile is_ws (drop (length bullet) matched)"

text \<open>
  The callback of the duplicate-greeting removal. \<open>firstGreetingIndex\<close> starts as the
  number \<open>-1\<close>. The callback is declared as \<open>(match, offset) => \<dots>\<close>, but \<open>replace\<close> passes
  the capture groups before the offset, so the parameter named \<open>offset\<close> receives group 1,
  which for this pattern is the whole match: the first call stores that text in
  \<open>firstGreetingIndex\<close> and returns the match, and every later call, finding a value that
  is not \<open>-1\<close>, returns the empty string. The number the scan passes as offset is not read.
\<close>

datatype index_or_text = Index int | Text ustring

definition keep_first_greeting ::
  "index_or_text \<Rightarrow> ustring \<Rightarrow> nat \<Rightarrow> index_or_text \<times> ustring" where
  "keep_first_greeting firstGreetingIndex match off =
     (let offset = Text match in
      if firstGreetingIndex = Index (- 1) then (offset, match) else (firstGreetingIndex, []))"

text \<open>\<open>/\n\n+/g\<close>.\<close>

definition newlines_re :: regex where
  "newlines_re prev s =
     (if starts_with s [10, 10] then Some (length (takeWhile (\<lambda>c. c = 10) s)) else None)"

text \<open>\<open>/^Hello!\s*Here is what happened[^\n]*\n?/im\<close>.\<close>

definition drop_optional_newline :: "ustring \<Rightarrow> ustring" where
  "drop_optional_newline s = (case s of [] \<Rightarrow> [] | c # cs \<Rightarrow> if c = 10 then cs else s)"

definition hello_re :: regex where
  "hello_re prev s =
     (if line_start prev \<and> starts_with_ci s (asc ''Hello!'') then
        let s1 = dropWhile is_ws (drop (length (asc ''Hello!'')) s) in
        if starts_with_ci s1 (asc ''Here is what happened'') then
          let s2 = dropWhile not_newline (drop (length (asc ''Here is what happened'')) s1)
          in Some (length s - length (drop_optional_newline s2))
        else None
      else None)"

text \<open>\<open>/^CHECK\s*Payment (Confirmed|Required)\s*\n?\n?/gim\<close>.\<close>

definition check_mark :: ustring where
  "check_mark = [0x201A, 0xFA, 0xD6]"

definition payment_status_re :: regex where
  "payment_status_re prev s =
     (if line_start prev \<and> starts_with_ci s check_mark then
        let s1 = dropWhile is_ws (drop (length check_mark) s) in
        if starts_with_ci s1 (asc ''Payment Confirmed'') then
          Some (length s - length (dropWhile is_ws (drop (length (asc ''Payment Confirmed'')) s1)))
        else if starts_with_ci s1 (asc ''Payment Required'') then
          Some (length s - length (dropWhile is_ws (drop (length (asc ''Payment Required'')) s1)))
        else None
      else None)"

text \<open>
  \<open>.*?\<close> and \<open>[\s\S]*?\<close> followed by a literal under the \<open>i\<close> flag: the text behind the
  first occurrence of the literal, where \<open>.\<close> may not cross a line terminator.
\<close>

fun dots_until_ci :: "ustring \<Rightarrow> ustring \<Rightarrow> ustring option" where
  "dots_until_ci [] p = (if p = [] then Some [] else None)"
| "dots_until_ci (c # cs) p =
     (if starts_with_ci (c # cs) p then Some (drop (length p) (c # cs))
      else if is_line_terminator c then None
      else dots_until_ci cs p)"

fun any_until_ci :: "ustring \<Rightarrow> ustring \<Rightarrow> ustring option" where
  "any_until_ci [] p = (if p = [] then Some [] else None)"
| "any_until_ci (c # cs) p =
     (if starts_with_ci (c # cs) p then Some (drop (length p) (c # cs)) else any_until_ci cs p)"

text \<open>\<open>/CARD\s*\*\*Payment Required\*\*[\s\S]*?automatically\./gi\<close>.\<close>

definition card :: ustring where
  "card = [0xF8FF, 0xFC, 0xED, 0x2265]"

definition payment_prompt_re :: regex where
  "payment_prompt_re prev s =
     (if starts_with_ci s card then
        let s1 = dropWhile is_ws (drop (length card) s) in
        if starts_with_ci s1 (asc ''**Payment Required**'') then
          (case any_until_ci (drop (length (asc ''**Payment Required**'')) s1) (asc ''automatically.'') of
             None \<Rightarrow> None
           | Some r \<Rightarrow> Some (length s - length r))
        else None
      else None)"

text \<open>\<open>/LINK\s*\*\*Pay.*?\n/gi\<close>.\<close>

definition link :: ustring where
  "link = [0xF8FF, 0xFC, 0xEE, 0xF3]"

definition pay_link_re :: regex where
  "pay_link_re prev s =
     (if starts_with_ci s link then
        let s1 = dropWhile is_ws (drop (length link) s) in
        if starts_with_ci s1 (asc ''**Pay'') then
          (case dots_until_ci (drop (length (asc ''**Pay'')) s1) [10] of
             None \<Rightarrow> None
           | Some r \<Rightarrow> Some (length s - length r))
        else None
      else None)"

text \<open>\<open>/https?:\/\/[^\s]*pay[^\s]*/gi\<close>.\<close>

definition not_ws :: "nat \<Rightarrow> bool" where
  "not_ws c = (\<not> is_ws c)"

definition pay_url_re :: regex where
  "pay_url_re prev s =
     (if starts_with_ci s (asc ''http'') then
        let s1 = drop (length (asc ''http'')) s;
            s2 = (if starts_with_ci s1 (asc ''s'') then drop 1 s1 else s1) in
        if starts_with_ci s2 (asc ''://'') then
          let s3 = drop (length (asc ''://'')) s2 in
          if includes_ci (takeWhile not_ws s3) (asc ''pay'')
          then Some (length s - length (dropWhile not_ws s3)) else None
        else None
      else None)"

text \<open>\<open>/To summarise this channel, please pay.*?via x402\./gi\<close>.\<close>

definition please_pay_re :: regex where
  "please_pay_re prev s =
     (if starts_with_ci s (asc ''To summarise this channel, please pay'') then
        (case dots_until_ci (drop (length (asc ''To summarise this channel, please pay'')) s)
                (asc ''via x402.'') of
           None \<Rightarrow> None
         | Some r \<Rightarrow> Some (length s - length r))
      else None)"

text \<open>
  \<open>/\[\d{4}-\d{2}-\d{2}T[^\]]+\]/g\<close>, \<open>/\[[^\]]*\d{4}[^\]]*\]/g\<close> and
  \<open>/x402 Summariser[^\n]*\n?/gi\<close>.
\<close>

fun match_classes :: "(nat \<Rightarrow> bool) list \<Rightarrow> ustring \<Rightarrow> bool" where
  "match_classes [] s = True"
| "match_classes (p # ps) [] = False"
| "match_classes (p # ps) (c # cs) = (p c \<and> match_classes ps cs)"

definition not_close_bracket :: "nat \<Rightarrow> bool" where
  "not_close_bracket c = (c \<noteq> 93)"

definition iso_timestamp_re :: regex where
  "iso_timestamp_re prev s =
     (if match_classes [(\<lambda>c. c = 91), is_digit, is_digit, is_digit, is_digit, (\<lambda>c. c = 45),
                        is_digit, is_digit, (\<lambda>c. c = 45), is_digit, is_digit, (\<lambda>c. c = 84)] s then
        let rest = drop 12 s in
        if takeWhile not_close_bracket rest \<noteq> [] \<and> dropWhile not_close_bracket rest \<noteq> []
        then Some (12 + length (takeWhile not_close_bracket rest) + 1) else None
      else None)"

fun has_four_digits :: "ustring \<Rightarrow> bool" where
  "has_four_digits [] = False"
| "has_four_digits (c # cs) =
     (match_classes [is_digit, is_digit, is_digit, is_digit] (c # cs) \<or> has_four_digits cs)"

definition bracketed_year_re :: regex where
  "bracketed_year_re prev s =
     (case s of
        [] \<Rightarrow> None
      | c # rest \<Rightarrow>
          if c = 91 \<and> dropWhile not_close_bracket rest \<noteq> [] \<and>
             has_four_digits (takeWhile not_close_bracket rest)
          then Some (1 + length (takeWhile not_close_bracket rest) + 1) else None)"

definition summariser_re :: regex where
  "summariser_re prev s =
     (if starts_with_ci s (asc ''x402 Summariser'') then
        let s1 = dropWhile not_newline (drop (length (asc ''x402 Summariser'')) s)
        in Some (length s - length (drop_optional_newline s1))
      else None)"

section \<open>The sanitization chain\<close>

text \<open>
  The statements that clean \<open>summary\<close> in \<open>handleDiscordCallback\<close> and
  \<open>handleTelegramCallback\<close>, one definition per statement. The Telegram handler trims the
  summary first and has no timestamp removal. \<open>or_no_content\<close> is the final
  \<open>if (!summary) summary = "No material\<dots>"; \<dots> summary.trim()\<close>.
\<close>

definition fix_greeting_bullet :: "ustring \<Rightarrow> ustring" where
  "fix_greeting_bullet summary = replace_first bullet_greeting_re bullet_group1 None summary"

definition dedupe_greetings :: "ustring \<Rightarrow> ustring" where
  "dedupe_greetings summary = replace_all_cb greeting_re keep_first_greeting (Index (- 1)) 0 0 None summary"

definition remove_duplicate_greetings :: "ustring \<Rightarrow> ustring" where
  "remove_duplicate_greetings summary =
     trim (replace_all newlines_re [10, 10] (dedupe_greetings summary))"

text \<open>The greeting lines of a text: the matches of the greeting pattern under \<open>gm\<close>.\<close>

definition greeting_lines :: "ustring \<Rightarrow> ustring list" where
  "greeting_lines s = global_matches greeting_re 0 None s"

definition remove_hello :: "ustring \<Rightarrow> ustring" where
  "remove_hello summary = replace_first hello_re (\<lambda>m. []) None summary"

definition remove_payment_fragments :: "ustring \<Rightarrow> ustring" where
  "remove_payment_fragments summary =
     trim (replace_all please_pay_re []
            (replace_all pay_url_re []
              (replace_all pay_link_re []
                (replace_all payment_prompt_re []
                  (replace_all payment_status_re [] summary)))))"

definition remove_timestamps :: "ustring \<Rightarrow> ustring" where
  "remove_timestamps summary =
     trim (replace_all summariser_re []
            (replace_all bracketed_year_re []
              (replace_all iso_timestamp_re [] summary)))"

definition no_content_message :: ustring where
  "no_content_message = asc ''No material updates or chatter in this window.''"

definition discord_sanitize :: "ustring \<Rightarrow> ustring" where
  "discord_sanitize summary =
     remove_timestamps (remove_payment_fragments (remove_hello
       (remove_duplicate_greetings (fix_greeting_bullet summary))))"

definition telegram_sanitize :: "ustring \<Rightarrow> ustring" where
  "telegram_sanitize summary =
     remove_payment_fragments (remove_hello
       (remove_duplicate_greetings (fix_greeting_bullet (trim summary))))"

definition or_no_content :: "ustring \<Rightarrow> ustring" where
  "or_no_content summary = trim (if summary = [] then no_content_message else summary)"

text \<open>
  Clean text. \<open>no_match re prev s\<close> says that the pattern matches at no position of \<open>s\<close>.
  A text is clean for the Telegram chain when it is not empty, has no white space at
  either end, no run of three newlines and at most one greeting line, and none of the
  patterns that the chain removes or rewrites matches in it; the Discord chain adds its
  three timestamp patterns.
\<close>

fun no_match :: "regex \<Rightarrow> nat option \<Rightarrow> ustring \<Rightarrow> bool" where
  "no_match re prev [] = (re prev [] = None)"
| "no_match re prev (c # cs) = (re prev (c # cs) = None \<and> no_match re (Some c) cs)"

definition clean_text :: "ustring \<Rightarrow> bool" where
  "clean_text s =
     (s \<noteq> [] \<and> \<not> is_ws (hd s) \<and> \<not> is_ws (last s) \<and>
      \<not> str_includes s [10, 10, 10] \<and> length (greeting_lines s) \<le> 1 \<and>
      no_match bullet_greeting_re None s \<and> no_match hello_re None s \<and>
      no_match payment_status_re None s \<and> no_match payment_prompt_re None s \<and>
      no_match pay_link_re None s \<and> no_match pay_url_re None s \<and>
      no_match please_pay_re None s)"

definition clean_discord_text :: "ustring \<Rightarrow> bool" where
  "clean_discord_text s =
     (clean_text s \<and> no_match iso_timestamp_re None s \<and> no_match bracketed_year_re None s \<and>
      no_match summariser_re None s)"

text \<open>A literal of a pattern that is not empty and has no newline in it.\<close>

definition lit_ok :: "ustring \<Rightarrow> bool" where
  "lit_ok p = (p \<noteq> [] \<and> 10 \<notin> set p)"

section \<open>decodeURIComponent\<close>

text \<open>
  \<open>decodeURIComponent\<close> of ECMAScript: every \<open>%XX\<close> is an octet, the octets must form
  valid UTF-8, and each decoded code point becomes one or two code units; \<open>None\<close> stands
  for the \<open>URIError\<close> it throws. \<open>utf8_decode k acc n\<close> is the decoder still expecting \<open>k\<close>
  continuation octets of an \<open>n\<close>-octet sequence whose bits so far are \<open>acc\<close>.
\<close>

datatype uri_item = Lit nat | Octet nat

definition hex_digit :: "nat \<Rightarrow> nat option" where
  "hex_digit c =
     (if 48 \<le> c \<and> c \<le> 57 then Some (c - 48)
      else if 65 \<le> c \<and> c \<le> 70 then Some (c - 55)
      else if 97 \<le> c \<and> c \<le> 102 then Some (c - 87)
      else None)"

fun percent_decode :: "ustring \<Rightarrow> uri_item list option" where
  "percent_decode [] = Some []"
| "percent_decode (c # cs) =
     (if c = 37 then
        (case cs of
           h1 # h2 # rest \<Rightarrow>
             (case (hex_digit h1, hex_digit h2) of
                (Some a, Some b) \<Rightarrow> map_option ((#) (Octet (16 * a + b))) (percent_decode rest)
              | _ \<Rightarrow> None)
         | _ \<Rightarrow> None)
      else map_option ((#) (Lit c)) (percent_decode cs))"

definition is_continuation :: "nat \<Rightarrow> bool" where
  "is_continuation b = (128 \<le> b \<and> b < 192)"

definition valid_code_point :: "nat \<Rightarrow> nat \<Rightarrow> bool" where
  "valid_code_point n v =
     (if n = 2 then 0x80 \<le> v
      else if n = 3 then 0x800 \<le> v \<and> \<not> (0xD800 \<le> v \<and> v \<le> 0xDFFF)
      else 0x10000 \<le> v \<and> v \<le> 0x10FFFF)"

definition code_units :: "nat \<Rightarrow> ustring" where
  "code_units v =
     (if v < 0x10000 then [v]
      else [0xD800 + (v - 0x10000) div 1024, 0xDC00 + (v - 0x10000) mod 1024])"

fun utf8_decode :: "nat \<Rightarrow> nat \<Rightarrow> nat \<Rightarrow> uri_item list \<Rightarrow> ustring option" where
  "utf8_decode 0 acc n [] = Some []"
| "utf8_decode (Suc k) acc n [] = None"
| "utf8_decode 0 acc n (Lit c # r) = map_option ((#) c) (utf8_decode 0 0 0 r)"
| "utf8_decode (Suc k) acc n (Lit c # r) = None"
| "utf8_decode 0 acc n (Octet b # r) =
     (if b < 128 then map_option ((#) b) (utf8_decode 0 0 0 r)
      else if 194 \<le> b \<and> b < 224 then utf8_decode 1 (b - 192) 2 r
      else if 224 \<le> b \<and> b < 240 then utf8_decode 2 (b - 224) 3 r
      else if 240 \<le> b \<and> b < 248 then utf8_decode 3 (b - 240) 4 r
      else None)"
| "utf8_decode (Suc k) acc n (Octet b # r) =
     (if is_continuation b then
        let v = acc * 64 + (b - 128) in
        if k = 0 then
          (if valid_code_point n v then map_option ((@) (code_units v)) (utf8_decode 0 0 0 r)
           else None)
        else utf8_decode k v n r
      else None)"

definition decodeURIComponent :: "ustring \<Rightarrow> ustring option" where
  "decodeURIComponent s = (case percent_decode s of None \<Rightarrow> None | Some items \<Rightarrow> utf8_decode 0 0 0 items)"

section \<open>JSON values\<close>

text \<open>
  The \<open>result\<close> of a callback body is any JSON value; \<open>undefined\<close> is \<open>None\<close>. Of a
  number only whether it is zero is ever read, so numbers are integers here. \<open>truthy\<close> is
  JavaScript's truthiness, \<open>get_prop v name\<close> is \<open>v?.name\<close> for the property names read
  here (only an object has them; a repeated key keeps its last value), \<open>or_else\<close> is \<open>||\<close>.
  \<open>as_string\<close> is the receiver of \<open>.replace\<close> or \<open>.trim\<close>: on a value that is not a
  string the call throws a \<open>TypeError\<close> (\<open>None\<close>).
\<close>

datatype json = JNull | JBool bool | JNum int | JStr ustring | JArr "json list"
  | JObj "(ustring \<times> json) list"

definition truthy :: "json option \<Rightarrow> bool" where
  "truthy v =
     (case v of
        None \<Rightarrow> False
      | Some JNull \<Rightarrow> False
      | Some (JBool b) \<Rightarrow> b
      | Some (JNum n) \<Rightarrow> n \<noteq> 0
      | Some (JStr s) \<Rightarrow> s \<noteq> []
      | Some (JArr xs) \<Rightarrow> True
      | Some (JObj kvs) \<Rightarrow> True)"

definition get_prop :: "json option \<Rightarrow> ustring \<Rightarrow> json option" where
  "get_prop v name = (case v of Some (JObj kvs) \<Rightarrow> map_of (rev kvs) name | _ \<Rightarrow> None)"

definition or_else :: "json option \<Rightarrow> json option \<Rightarrow> json option" where
  "or_else a b = (if truthy a then a else b)"

definition as_string :: "json option \<Rightarrow> ustring option" where
  "as_string v = (case v of Some (JStr s) \<Rightarrow> Some s | _ \<Rightarrow> None)"

section \<open>The Callback Dispatcher\<close>

text \<open>
  What the platform answers to the handler's requests is an input: the outcome of the
  post (\<open>fetch\<close> rejects, or the response is ok or not), the outcome of the request that
  edits or deletes the payment prompt, and whether the 5 second timer wins the
  \<open>Promise.race\<close> against the posting task (the task is not cancelled then). The result
  of a handler is its response, the registry it leaves and the requests it issues to the
  platform: the post, the edit or delete of the prompt, and the retry that the
  \<open>catch\<close> block schedules when the race rejects.

  The request is the parsed body: its token (a string, \<open>None\<close> when missing) and its
  \<open>result\<close>. The write of the search state in the Telegram handler touches neither the
  registries nor the platform and cannot throw; it is not part of this model.
\<close>

datatype fetch_result = FetchRejects | FetchNotOk | FetchOk

record dispatch_env =
  post_result :: fetch_result
  cleanup_result :: fetch_result
  timed_out :: bool
  TELEGRAM_BOT_TOKEN :: "ustring option"

datatype platform_call =
    DiscordPost ustring ustring ustring
  | DiscordEdit ustring ustring ustring
  | TelegramSend int ustring bool
  | TelegramDelete int int

datatype callback_response = Success | Failure nat ustring

record callback_request =
  cb_token :: "ustring option"
  cb_result :: "json option"

definition discord_summary :: "json option \<Rightarrow> ustring option" where
  "discord_summary result =
     (let output = or_else (get_prop result (asc ''output'')) result
      in as_string (or_else (get_prop output (asc ''summary'')) (Some (JStr (asc ''No summary available'')))))"

definition discord_content :: "json option \<Rightarrow> ustring option" where
  "discord_content result = map_option (\<lambda>summary. or_no_content (discord_sanitize summary)) (discord_summary result)"

definition discord_calls :: "dispatch_env \<Rightarrow> DiscordCallbackData \<Rightarrow> ustring \<Rightarrow> ustring \<Rightarrow> platform_call list" where
  "discord_calls env callbackData decodedToken content =
     (let post = DiscordPost (d_applicationId callbackData) decodedToken content;
          edit = (case d_paymentMessageId callbackData of
                    None \<Rightarrow> []
                  | Some paymentMessageId \<Rightarrow>
                      if post_result env = FetchOk \<and> paymentMessageId \<noteq> []
                      then [DiscordEdit (d_applicationId callbackData) decodedToken paymentMessageId]
                      else []);
          task_rejects = (post_result env = FetchRejects \<or>
                          (edit \<noteq> [] \<and> cleanup_result env = FetchRejects));
          retry = (if timed_out env \<or> task_rejects then [post] else [])
      in post # edit @ retry)"

definition handleDiscordCallback ::
  "dispatch_env \<Rightarrow> pendingDiscordCallbacks \<Rightarrow> callback_request
     \<Rightarrow> callback_response \<times> pendingDiscordCallbacks \<times> platform_call list" where
  "handleDiscordCallback env pending req =
     (case cb_token req of
        None \<Rightarrow> (Failure 400 (asc ''Missing discord_token''), pending, [])
      | Some discord_token \<Rightarrow>
          if discord_token = [] then (Failure 400 (asc ''Missing discord_token''), pending, [])
          else
            (case decodeURIComponent discord_token of
               None \<Rightarrow> (Failure 500 (asc ''Internal server error''), pending, [])
             | Some decodedToken \<Rightarrow>
                 (case pending decodedToken of
                    None \<Rightarrow> (Failure 404 (asc ''Invalid or expired callback token''), pending, [])
                  | Some callbackData \<Rightarrow>
                      let pending' = pending(decodedToken := None) in
                      (case discord_content (cb_result req) of
                         None \<Rightarrow> (Failure 500 (asc ''Internal server error''), pending', [])
                       | Some content \<Rightarrow>
                           (Success, pending', discord_calls env callbackData decodedToken content)))))"

definition telegram_summary :: "json option \<Rightarrow> ustring option" where
  "telegram_summary result =
     (let output = or_else (get_prop result (asc ''output'')) result
      in as_string (or_else (get_prop output (asc ''summary''))
                      (or_else (get_prop output (asc ''text'')) (Some (JStr [])))))"

definition telegram_formattedMessage :: "json option \<Rightarrow> ustring option" where
  "telegram_formattedMessage result =
     (let output = or_else (get_prop result (asc ''output'')) result
      in as_string (or_else (get_prop output (asc ''formattedMessage''))
                      (or_else (get_prop output (asc ''text'')) (Some (JStr [])))))"

definition telegram_messageText :: "TelegramCallbackData \<Rightarrow> json option \<Rightarrow> ustring option" where
  "telegram_messageText callbackData result =
     (if t_topic callbackData \<noteq> None then
        map_option
          (\<lambda>m. if trim m = [] then asc ''No events found. Please try a different search query.''
                else trim m)
          (telegram_formattedMessage result)
      else
        map_option (\<lambda>summary. or_no_content (telegram_sanitize summary)) (telegram_summary result))"

definition telegram_calls :: "dispatch_env \<Rightarrow> TelegramCallbackData \<Rightarrow> ustring \<Rightarrow> platform_call list" where
  "telegram_calls env callbackData messageText =
     (let send = TelegramSend (t_chatId callbackData) messageText
                   (t_topic callbackData \<noteq> None \<or> str_includes messageText (asc ''[''));
          delete = (case t_paymentMessageId callbackData of
                      None \<Rightarrow> []
                    | Some paymentMessageId \<Rightarrow>
                        if post_result env = FetchOk \<and> paymentMessageId \<noteq> 0
                        then [TelegramDelete (t_chatId callbackData) paymentMessageId]
                        else []);
          task_rejects = (post_result env = FetchRejects \<or>
                          (delete \<noteq> [] \<and> cleanup_result env = FetchRejects));
          retry = (if timed_out env \<or> task_rejects then [send] else [])
      in send # delete @ retry)"

definition handleTelegramCallback ::
  "dispatch_env \<Rightarrow> pendingTelegramCallbacks \<Rightarrow> callback_request
     \<Rightarrow> callback_response \<times> pendingTelegramCallbacks \<times> platform_call list" where
  "handleTelegramCallback env pending req =
     (case cb_token req of
        None \<Rightarrow> (Failure 400 (asc ''Missing telegram_token''), pending, [])
      | Some telegram_token \<Rightarrow>
          if telegram_token = [] then (Failure 400 (asc ''Missing telegram_token''), pending, [])
          else
            (case decodeURIComponent telegram_token of
               None \<Rightarrow> (Failure 500 (asc ''Internal server error''), pending, [])
             | Some decodedToken \<Rightarrow>
                 (case pending decodedToken of
                    None \<Rightarrow> (Failure 404 (asc ''Invalid or expired callback token''), pending, [])
                  | Some callbackData \<Rightarrow>
                      let pending' = pending(decodedToken := None) in
                      if TELEGRAM_BOT_TOKEN env = None \<or> TELEGRAM_BOT_TOKEN env = Some []
                      then (Failure 500 (asc ''Telegram bot token missing''), pending', [])
                      else
                        (case telegram_messageText callbackData (cb_result req) of
                           None \<Rightarrow> (Failure 500 (asc ''Internal server error''), pending', [])
                         | Some messageText \<Rightarrow>
                             (Success, pending', telegram_calls env callbackData messageText)))))"

text \<open>
  The expiry sweep that \<open>setInterval\<close> runs every 30 minutes: with one reading of the
  clock it deletes from both registries every entry whose \<open>expiresAt\<close> is before it.
\<close>

definition sweep_discord :: "int \<Rightarrow> pendingDiscordCallbacks \<Rightarrow> pendingDiscordCallbacks" where
  "sweep_discord now pending =
     (\<lambda>token. case pending token of
                 None \<Rightarrow> None
               | Some data \<Rightarrow> if d_expiresAt data < now then None else Some data)"

definition sweep_telegram :: "int \<Rightarrow> pendingTelegramCallbacks \<Rightarrow> pendingTelegramCallbacks" where
  "sweep_telegram now pending =
     (\<lambda>token. case pending token of
                 None \<Rightarrow> None
               | Some data \<Rightarrow> if t_expiresAt data < now then None else Some data)"





section \<open>Properties of the message store\<close>

lemma addTelegramMessage_other:
  "c \<noteq> chatId \<Longrightarrow> getTelegramMessages (addTelegramMessage store chatId m) c = getTelegramMessages store c"
  by (simp add: addTelegramMessage_def getTelegramMessages_def Let_def)

lemma addTelegramMessage_same:
  "getTelegramMessages (addTelegramMessage store c m) c =
     (let pushed = getTelegramMessages store c @ [m]
      in drop (length pushed - MAX_MESSAGES_PER_CHAT) pushed)"
  by (simp add: addTelegramMessage_def getTelegramMessages_def Let_def)

lemma last_n_append:
  "drop (length (drop (length xs - N) xs @ ys) - N) (drop (length xs - N) xs @ ys) =
   drop (length (xs @ ys) - N) (xs @ (ys::'a list))"
proof (cases "length xs \<le> N")
  case True
  then show ?thesis by simp
next
  case False
  then have "length xs - N + N = length xs" by simp
  with False show ?thesis by (simp add: add.commute)
qed

lemma addTelegramMessages_get:
  "length (getTelegramMessages store c) \<le> MAX_MESSAGES_PER_CHAT \<Longrightarrow>
   getTelegramMessages (addTelegramMessages store calls) c =
     (let every = getTelegramMessages store c @ added_to c calls
      in drop (length every - MAX_MESSAGES_PER_CHAT) every)"
proof (induction calls arbitrary: store)
  case Nil
  then show ?case by (simp add: added_to_def)
next
  case (Cons call calls)
  obtain k m where call: "call = (k, m)" by (cases call)
  show ?case
  proof (cases "k = c")
    case False
    with Cons call show ?thesis
      by (simp add: addTelegramMessage_other added_to_def)
  next
    case True
    let ?old = "getTelegramMessages store c"
    let ?new = "getTelegramMessages (addTelegramMessage store c m) c"
    have new: "?new = drop (length (?old @ [m]) - MAX_MESSAGES_PER_CHAT) (?old @ [m])"
      by (simp add: addTelegramMessage_same Let_def)
    have bound: "length ?new \<le> MAX_MESSAGES_PER_CHAT"
      using Cons.prems by (simp add: new)
    have added: "added_to c (call # calls) = m # added_to c calls"
      using call True by (simp add: added_to_def)
    have "getTelegramMessages (addTelegramMessages store (call # calls)) c =
          getTelegramMessages (addTelegramMessages (addTelegramMessage store c m) calls) c"
      using call True by simp
    also have "\<dots> = (let every = ?new @ added_to c calls
                      in drop (length every - MAX_MESSAGES_PER_CHAT) every)"
      by (rule Cons.IH [OF bound])
    also have "\<dots> = drop (length ((?old @ [m]) @ added_to c calls) - MAX_MESSAGES_PER_CHAT)
                         ((?old @ [m]) @ added_to c calls)"
      unfolding new Let_def by (rule last_n_append)
    also have "\<dots> = (let every = ?old @ added_to c (call # calls)
                      in drop (length every - MAX_MESSAGES_PER_CHAT) every)"
      by (simp add: added Let_def)
    finally show ?thesis .
  qed
qed

text \<open>
  C10. Starting from the empty store, after any sequence of \<open>addTelegramMessage\<close> calls
  the list stored for a chat holds at most 1000 messages, and it is exactly the last
  1000 (or all, if fewer) of the messages added to that chat, in the order they were added.
\<close>

theorem addTelegramMessage_keeps_latest:
  "length (getTelegramMessages (addTelegramMessages Map.empty calls) c) \<le> 1000 \<and>
   getTelegramMessages (addTelegramMessages Map.empty calls) c =
     drop (length (added_to c calls) - 1000) (added_to c calls)"
proof -
  have "length (getTelegramMessages Map.empty c) \<le> MAX_MESSAGES_PER_CHAT"
    by (simp add: getTelegramMessages_def)
  from addTelegramMessages_get [OF this, of calls]
  have eq: "getTelegramMessages (addTelegramMessages Map.empty calls) c =
        drop (length (added_to c calls) - 1000) (added_to c calls)"
    by (simp add: getTelegramMessages_def Let_def MAX_MESSAGES_PER_CHAT_def)
  then show ?thesis by simp
qed

theorem addTelegramMessage_keeps_latest_witness:
  "getTelegramMessages
     (addTelegramMessages Map.empty
        [(7, \<lparr>messageId = 1, msg_text = asc ''a'', timestampMs = 10, authorId = None,
               authorUsername = None, authorDisplay = None, replyToMessageId = None\<rparr>),
         (8, \<lparr>messageId = 2, msg_text = asc ''b'', timestampMs = 20, authorId = None,
               authorUsername = None, authorDisplay = None, replyToMessageId = None\<rparr>),
         (7, \<lparr>messageId = 3, msg_text = asc ''c'', timestampMs = 30, authorId = None,
               authorUsername = None, authorDisplay = None, replyToMessageId = None\<rparr>)]) 7 =
   [\<lparr>messageId = 1, msg_text = asc ''a'', timestampMs = 10, authorId = None,
      authorUsername = None, authorDisplay = None, replyToMessageId = None\<rparr>,
    \<lparr>messageId = 3, msg_text = asc ''c'', timestampMs = 30, authorId = None,
      authorUsername = None, authorDisplay = None, replyToMessageId = None\<rparr>]"
  using addTelegramMessage_keeps_latest
    [of "[(7, \<lparr>messageId = 1, msg_text = asc ''a'', timestampMs = 10, authorId = None,
               authorUsername = None, authorDisplay = None, replyToMessageId = None\<rparr>),
         (8, \<lparr>messageId = 2, msg_text = asc ''b'', timestampMs = 20, authorId = None,
               authorUsername = None, authorDisplay = None, replyToMessageId = None\<rparr>),
         (7, \<lparr>messageId = 3, msg_text = asc ''c'', timestampMs = 30, authorId = None,
               authorUsername = None, authorDisplay = None, replyToMessageId = None\<rparr>)]" 7]
  by (simp add: added_to_def)

section \<open>Properties of the /more command\<close>

lemma more_command_live:
  assumes "chatId \<noteq> 0" and "ss chatId = Some st" and "\<not> s_expiresAt st < now1"
  shows "more_command fmt now1 now2 ss (Some chatId) =
     (if s_offset st + 5 \<ge> length (s_events st) then (ss, Reply msg_seen_all False)
      else (ss(chatId \<mapsto> st\<lparr>s_offset := s_offset st + 5, s_expiresAt := now2 + 3600000\<rparr>),
            Reply (fmt (slice (s_events st) (s_offset st + 5) (s_offset st + 5 + 5))
                     (length (s_events st)) (s_offset st + 5)) True))"
  using assms by (simp add: more_command_def Let_def)

lemma more_command_offset_mono:
  assumes "ss c = Some st"
  shows "\<exists>st'. fst (more_command fmt now1 now2 ss chat) c = Some st' \<and>
           s_offset st \<le> s_offset st' \<and> s_events st' = s_events st"
  using assms
  by (auto simp add: more_command_def Let_def split: option.splits)

lemma more_command_expired:
  assumes "chatId \<noteq> 0" and "ss chatId = Some st" and "s_expiresAt st < now1"
  shows "more_command fmt now1 now2 ss (Some chatId) = (ss, Reply msg_no_recent_search False)"
  using assms by (simp add: more_command_def)

lemma more_command_absent:
  assumes "chatId \<noteq> 0" and "ss chatId = None"
  shows "more_command fmt now1 now2 ss (Some chatId) = (ss, Reply msg_no_recent_search False)"
  using assms by (simp add: more_command_def)

lemma more_command_no_chat:
  "more_command fmt now1 now2 ss None = (ss, Reply msg_no_chat_id False)"
  "more_command fmt now1 now2 ss (Some 0) = (ss, Reply msg_no_chat_id False)"
  by (simp_all add: more_command_def)

text \<open>
  C7, as the claim states it for every pagination state: a stored state with six events
  and offset 0 whose \<open>expiresAt\<close> (100) is before the clock (200) has \<open>0 + 5 < 6\<close>, yet
  /more answers "No recent search found" and leaves the state, and so the offset 0, as
  it is, instead of replying with the slice and storing the offset 5.
\<close>

theorem more_command_expired_counterexample:
  "(let e = \<lparr>ev_id = asc ''e'', ev_title = asc ''t'', ev_url = asc ''u'', ev_description = None,
             ev_location = None, ev_date = None, ev_attendeeCount = None\<rparr>;
        st = \<lparr>s_events = [e, e, e, e, e, e], s_topic = asc ''ai'', s_location = None,
              s_offset = 0, s_expiresAt = 100\<rparr>;
        ss = [1 \<mapsto> st];
        fmt = (\<lambda>evs total start. [])
    in s_offset st + 5 < length (s_events st) \<and>
       more_command fmt 200 200 ss (Some 1) = (ss, Reply msg_no_recent_search False) \<and>
       map_option s_offset (fst (more_command fmt 200 200 ss (Some 1)) 1) = Some 0 \<and>
       more_command fmt 200 200 ss (Some 1) \<noteq>
         (ss(1 \<mapsto> st\<lparr>s_offset := s_offset st + 5, s_expiresAt := 200 + 3600000\<rparr>),
          Reply (fmt (slice (s_events st) (s_offset st + 5) (s_offset st + 10))
                   (length (s_events st)) (s_offset st + 5)) True))"
  by (simp add: more_command_def Let_def)

text \<open>
  C7, amended: for every pagination state that /more finds, that is one stored for the
  (non-zero) chat id whose \<open>expiresAt\<close> is not before the clock, with event list \<open>E\<close> and
  offset \<open>o\<close>: if \<open>o + 5 < |E|\<close> the reply is the formatted slice \<open>E[o+5 .. o+10)\<close> and the
  stored offset becomes \<open>o + 5\<close>; if \<open>o + 5 \<ge> |E|\<close> the reply is the "seen all events"
  message and the state is unchanged. For an expired state (\<open>expiresAt\<close> before the clock),
  as for a chat with no stored state, /more answers "No recent search found" and leaves
  the state unchanged; without a chat id it answers "Could not determine chat id" and
  leaves the state unchanged. Whatever the state (expired or not), /more never decreases
  a stored offset and keeps the event list.
\<close>

theorem more_command_advance:
  "(chatId \<noteq> 0 \<and> ss chatId = Some st \<and> \<not> s_expiresAt st < now1 \<longrightarrow>
      (s_offset st + 5 < length (s_events st) \<longrightarrow>
         more_command fmt now1 now2 ss (Some chatId) =
           (ss(chatId \<mapsto> st\<lparr>s_offset := s_offset st + 5, s_expiresAt := now2 + 3600000\<rparr>),
            Reply (fmt (slice (s_events st) (s_offset st + 5) (s_offset st + 10))
                     (length (s_events st)) (s_offset st + 5)) True) \<and>
         slice (s_events st) (s_offset st + 5) (s_offset st + 10) =
           take 5 (drop (s_offset st + 5) (s_events st))) \<and>
      (s_offset st + 5 \<ge> length (s_events st) \<longrightarrow>
         more_command fmt now1 now2 ss (Some chatId) = (ss, Reply msg_seen_all False))) \<and>
   (chatId \<noteq> 0 \<and> ss chatId = Some st \<and> s_expiresAt st < now1 \<longrightarrow>
      more_command fmt now1 now2 ss (Some chatId) = (ss, Reply msg_no_recent_search False)) \<and>
   (chatId \<noteq> 0 \<and> ss chatId = None \<longrightarrow>
      more_command fmt now1 now2 ss (Some chatId) = (ss, Reply msg_no_recent_search False)) \<and>
   more_command fmt now1 now2 ss None = (ss, Reply msg_no_chat_id False) \<and>
   more_command fmt now1 now2 ss (Some 0) = (ss, Reply msg_no_chat_id False) \<and>
   msg_seen_all \<noteq> msg_no_recent_search \<and> msg_seen_all \<noteq> msg_no_chat_id \<and>
   (ss c = Some st0 \<longrightarrow>
      (\<exists>st'. fst (more_command fmt now1 now2 ss chat) c = Some st' \<and>
             s_offset st0 \<le> s_offset st' \<and> s_events st' = s_events st0))"
proof -
  have a: "s_offset st + 5 + 5 = s_offset st + 10" by simp
  have live: "chatId \<noteq> 0 \<and> ss chatId = Some st \<and> \<not> s_expiresAt st < now1 \<longrightarrow>
      (s_offset st + 5 < length (s_events st) \<longrightarrow>
         more_command fmt now1 now2 ss (Some chatId) =
           (ss(chatId \<mapsto> st\<lparr>s_offset := s_offset st + 5, s_expiresAt := now2 + 3600000\<rparr>),
            Reply (fmt (slice (s_events st) (s_offset st + 5) (s_offset st + 10))
                     (length (s_events st)) (s_offset st + 5)) True) \<and>
         slice (s_events st) (s_offset st + 5) (s_offset st + 10) =
           take 5 (drop (s_offset st + 5) (s_events st))) \<and>
      (s_offset st + 5 \<ge> length (s_events st) \<longrightarrow>
         more_command fmt now1 now2 ss (Some chatId) = (ss, Reply msg_seen_all False))"
    using more_command_live [of chatId ss st now1 fmt now2]
    by (auto simp add: a slice_def)
  have expired: "chatId \<noteq> 0 \<and> ss chatId = Some st \<and> s_expiresAt st < now1 \<longrightarrow>
      more_command fmt now1 now2 ss (Some chatId) = (ss, Reply msg_no_recent_search False)"
    using more_command_expired [of chatId ss st now1 fmt now2] by blast
  have absent: "chatId \<noteq> 0 \<and> ss chatId = None \<longrightarrow>
      more_command fmt now1 now2 ss (Some chatId) = (ss, Reply msg_no_recent_search False)"
    using more_command_absent [of chatId ss fmt now1 now2] by blast
  have msgs: "msg_seen_all \<noteq> msg_no_recent_search" "msg_seen_all \<noteq> msg_no_chat_id"
    by (simp_all add: msg_seen_all_def msg_no_recent_search_def msg_no_chat_id_def)
  have mono: "ss c = Some st0 \<longrightarrow>
      (\<exists>st'. fst (more_command fmt now1 now2 ss chat) c = Some st' \<and>
             s_offset st0 \<le> s_offset st' \<and> s_events st' = s_events st0)"
    using more_command_offset_mono [of ss c st0 fmt now1 now2 chat] by blast
  from live expired absent more_command_no_chat [of fmt now1 now2 ss] msgs mono
  show ?thesis by blast
qed

theorem more_command_advance_witness:
  "(let ev = (\<lambda>i. \<lparr>ev_id = [i], ev_title = asc ''t'', ev_url = asc ''u'', ev_description = None,
                     ev_location = None, ev_date = None, ev_attendeeCount = None\<rparr>);
        st = \<lparr>s_events = map ev [0, 1, 2, 3, 4, 5, 6], s_topic = asc ''ai'',
              s_location = Some (asc ''london''), s_offset = 0, s_expiresAt = 500\<rparr>;
        fmt = (\<lambda>evs total start. concat (map ev_id evs))
    in more_command fmt 200 210 [1 \<mapsto> st] (Some 1) =
         ([1 \<mapsto> st\<lparr>s_offset := 5, s_expiresAt := 3600210\<rparr>], Reply [5, 6] True) \<and>
       more_command fmt 300 310 [1 \<mapsto> st\<lparr>s_offset := 5, s_expiresAt := 3600210\<rparr>] (Some 1) =
         ([1 \<mapsto> st\<lparr>s_offset := 5, s_expiresAt := 3600210\<rparr>], Reply msg_seen_all False) \<and>
       more_command fmt 600 610 [1 \<mapsto> st] (Some 1) =
         ([1 \<mapsto> st], Reply msg_no_recent_search False))"
proof -
  let ?ev = "\<lambda>i. \<lparr>ev_id = [i], ev_title = asc ''t'', ev_url = asc ''u'', ev_description = None,
                     ev_location = None, ev_date = None, ev_attendeeCount = None\<rparr>"
  let ?st = "\<lparr>s_events = map ?ev [0, 1, 2, 3, 4, 5, 6], s_topic = asc ''ai'',
              s_location = Some (asc ''london''), s_offset = 0, s_expiresAt = 500\<rparr>"
  let ?st5 = "?st\<lparr>s_offset := 5, s_expiresAt := 3600210\<rparr>"
  let ?fmt = "\<lambda>evs total start. concat (map ev_id evs)"
  have one: "more_command ?fmt 200 210 [1 \<mapsto> ?st] (Some 1) =
         ([1 \<mapsto> ?st5], Reply [5, 6] True)"
    using more_command_advance [where chatId = 1 and ss = "[1 \<mapsto> ?st]" and st = ?st
        and ?now1.0 = 200 and fmt = ?fmt and ?now2.0 = 210 and c = 1 and ?st0.0 = ?st
        and chat = "Some 1"]
    by (simp add: slice_def)
  have two: "more_command ?fmt 300 310 [1 \<mapsto> ?st5] (Some 1) = ([1 \<mapsto> ?st5], Reply msg_seen_all False)"
    using more_command_advance [where chatId = 1 and ss = "[1 \<mapsto> ?st5]" and st = ?st5
        and ?now1.0 = 300 and fmt = ?fmt and ?now2.0 = 310 and c = 1 and ?st0.0 = ?st5
        and chat = "Some 1"]
    by simp
  have three: "more_command ?fmt 600 610 [1 \<mapsto> ?st] (Some 1) =
         ([1 \<mapsto> ?st], Reply msg_no_recent_search False)"
    using more_command_advance [where chatId = 1 and ss = "[1 \<mapsto> ?st]" and st = ?st
        and ?now1.0 = 600 and fmt = ?fmt and ?now2.0 = 610 and c = 1 and ?st0.0 = ?st
        and chat = "Some 1"]
    by simp
  show ?thesis unfolding Let_def using one two three by simp
qed

section \<open>Properties of Command Intake\<close>

text \<open>
  C3, as the claim states it: with a Discord entry already recorded under a token, a
  second interaction carrying the same token reaches the insertion, which replaces the
  entry (here the lookback 60 by 5) instead of failing and keeping it.
\<close>

theorem put_overwrites_counterexample:
  "(let old = \<lparr>d_applicationId = asc ''app'', d_channelId = asc ''c1'', d_guildId = None,
               d_lookbackMinutes = 60, d_paymentMessageId = None, d_expiresAt = 1000\<rparr>;
        pending = [asc ''tok'' \<mapsto> old];
        pending' = discord_requires_payment 1800000 2000 True (Some (asc ''m2'')) pending
                     \<lparr>i_application_id = asc ''app'', i_token = asc ''tok'',
                      i_channel_id = asc ''c2'', i_guild_id = None\<rparr> 5
    in pending (asc ''tok'') = Some old \<and> pending' (asc ''tok'') \<noteq> Some old \<and>
       map_option d_lookbackMinutes (pending' (asc ''tok'')) = Some 5)"
  by (simp add: discord_requires_payment_def map_set_def Let_def asc_def)

text \<open>
  C3, amended: the insertion performed by Command Intake is an unconditional
  \<open>Map.set\<close>. Whenever a handler reaches it (the Telegram prompt was sent, the Discord
  follow-up was ok), the registry afterwards holds the new entry under the token, whether
  or not the token was present before, every other token keeps its entry, and no failure
  is signalled.
\<close>

theorem put_replaces_entry:
  "(followup_ok \<longrightarrow>
      (\<exists>e. discord_requires_payment expiry now followup_ok fid dp i mins (i_token i) = Some e \<and>
            d_lookbackMinutes e = mins \<and> d_expiresAt e = now + expiry \<and>
            d_channelId e = i_channel_id i \<and> d_paymentMessageId e = fid) \<and>
      (\<forall>k. k \<noteq> i_token i \<longrightarrow>
            discord_requires_payment expiry now followup_ok fid dp i mins k = dp k)) \<and>
   (ctx_chatId ctx = Some chatId \<and> chatId \<noteq> 0 \<and> env_prompt_id env = Some mid \<longrightarrow>
      (let token = mint_token chatId (env_now_token env) (env_uuid env) in
       (\<exists>e. summarise_command expiry env tp ctx (Inr mins) token = Some e \<and>
             t_chatId e = chatId \<and> t_lookbackMinutes e = Some mins \<and> t_topic e = None \<and>
             t_paymentMessageId e = Some mid \<and> t_expiresAt e = env_now_expiry env + expiry) \<and>
       (\<forall>k. k \<noteq> token \<longrightarrow> summarise_command expiry env tp ctx (Inr mins) k = tp k) \<and>
       (\<exists>e. search_events_command expiry env tp ctx (Inr (topic, loc)) token = Some e \<and>
             t_chatId e = chatId \<and> t_topic e = Some topic \<and> t_location e = loc \<and>
             t_paymentMessageId e = Some mid \<and> t_expiresAt e = env_now_expiry env + expiry) \<and>
       (\<forall>k. k \<noteq> token \<longrightarrow>
             search_events_command expiry env tp ctx (Inr (topic, loc)) k = tp k)))"
  by (simp add: discord_requires_payment_def summarise_command_def search_events_command_def
        map_set_def Let_def)

theorem put_replaces_entry_witness:
  "(let old = \<lparr>t_chatId = 5, t_threadId = None, t_messageId = None, t_paymentMessageId = Some 1,
               t_username = None, t_lookbackMinutes = Some 60, t_topic = None,
               t_location = None, t_expiresAt = 1000\<rparr>;
        env = \<lparr>env_now_token = 7, env_uuid = asc ''u'', env_prompt_id = Some 9,
               env_now_expiry = 8\<rparr>;
        ctx = \<lparr>ctx_chatId = Some 5, ctx_threadId = None, ctx_messageId = Some 3,
               ctx_username = None\<rparr>
    in mint_token 5 7 (asc ''u'') = asc ''5:7:u'' \<and>
       map_option t_lookbackMinutes
         (summarise_command 1800000 env [asc ''5:7:u'' \<mapsto> old] ctx (Inr 15) (asc ''5:7:u'')) =
         Some (Some 15) \<and>
       summarise_command 1800000 env [asc ''5:7:u'' \<mapsto> old] ctx (Inr 15) (asc ''x'') = None)"
proof -
  let ?old = "\<lparr>t_chatId = 5, t_threadId = None, t_messageId = None, t_paymentMessageId = Some 1,
               t_username = None, t_lookbackMinutes = Some 60, t_topic = None,
               t_location = None, t_expiresAt = 1000\<rparr>"
  let ?env = "\<lparr>env_now_token = 7, env_uuid = asc ''u'', env_prompt_id = Some 9,
               env_now_expiry = 8\<rparr>"
  let ?ctx = "\<lparr>ctx_chatId = Some 5, ctx_threadId = None, ctx_messageId = Some 3,
               ctx_username = None\<rparr>"
  have tok: "mint_token 5 7 (asc ''u'') = asc ''5:7:u''"
    by (simp add: mint_token_def String_of_int_def asc_def)
  have ne: "asc ''x'' \<noteq> asc ''5:7:u''" by (simp add: asc_def)
  note inst = put_replaces_entry [where followup_ok = True and expiry = 1800000 and now = 0
        and fid = None and dp = Map.empty and mins = 15 and ctx = ?ctx and chatId = 5
        and env = ?env and mid = 9 and tp = "[asc ''5:7:u'' \<mapsto> ?old]" and topic = "[]"
        and loc = None
        and i = "\<lparr>i_application_id = [], i_token = [], i_channel_id = [], i_guild_id = None\<rparr>"]
  from inst obtain e where
    "summarise_command 1800000 ?env [asc ''5:7:u'' \<mapsto> ?old] ?ctx (Inr 15) (asc ''5:7:u'') = Some e"
    "t_lookbackMinutes e = Some 15"
    by (auto simp add: Let_def tok)
  moreover from inst ne have
    "summarise_command 1800000 ?env [asc ''5:7:u'' \<mapsto> ?old] ?ctx (Inr 15) (asc ''x'') = None"
    by (simp add: Let_def tok)
  ultimately show ?thesis
    unfolding Let_def using tok by simp
qed

section \<open>Properties of the Payment Gate\<close>

text \<open>
  C8. Every request for a payment-gated entrypoint that carries no \<open>X-PAYMENT\<close> header is
  answered with status 402 and a body whose \<open>accepts\<close> list holds exactly one requirement
  (the one built for this request), and no collaborator is called: neither the worker
  nor the facilitator.
\<close>

theorem no_payment_header_challenge:
  "payment_gated (pathname req) \<and> x_payment req = None \<longrightarrow>
     status (fst (entrypoint_fetch cfg env req)) = 402 \<and>
     body (fst (entrypoint_fetch cfg env req)) =
       PaymentRequired [paymentRequirement cfg req] None None \<and>
     length [paymentRequirement cfg req] = 1 \<and>
     snd (entrypoint_fetch cfg env req) = [] \<and>
     WorkerCall \<notin> set (snd (entrypoint_fetch cfg env req))"
  by (simp add: entrypoint_fetch_def payment_gate_def json_402_def)

theorem no_payment_header_challenge_witness:
  "(let req = \<lparr>pathname = asc ''/entrypoints/summarise%20chat/invoke'', search = [],
               x_payment = None, discord_callback = None\<rparr>;
        cfg = \<lparr>payToAddress = asc ''0x1b'', agentBaseUrl = asc ''https://a.example/'',
               price = asc ''0.05'', currency = asc ''USDC''\<rparr>;
        env = \<lparr>decodePayment = (\<lambda>h. Some ()),
               findMatchingPaymentRequirements = (\<lambda>rs p. Some (hd rs)),
               facilitator_verify = (\<lambda>p r. Verification True None None),
               facilitator_settle = (\<lambda>p r. Settlement True (asc ''receipt'')),
               app_fetch = (\<lambda>r. \<lparr>status = 200, statusText = asc ''OK'', resp_headers = Map.empty,
                                   body = ()\<rparr>)\<rparr>
    in payment_gated (pathname req) \<and>
       status (fst (entrypoint_fetch cfg env req)) = 402 \<and>
       snd (entrypoint_fetch cfg env req) = [] \<and>
       pr_resource (paymentRequirement cfg req) =
         asc ''https://a.example/entrypoints/summarise%20chat/invoke'')"
proof -
  let ?req = "\<lparr>pathname = asc ''/entrypoints/summarise%20chat/invoke'', search = [],
               x_payment = None, discord_callback = None\<rparr>"
  have gated: "payment_gated (pathname ?req)"
    by (simp add: payment_gated_def isSummariseEndpoint_def asc_def)
  have res: "pr_resource (paymentRequirement
        \<lparr>payToAddress = asc ''0x1b'', agentBaseUrl = asc ''https://a.example/'',
               price = asc ''0.05'', currency = asc ''USDC''\<rparr> ?req) =
         asc ''https://a.example/entrypoints/summarise%20chat/invoke''"
    by (simp add: paymentRequirement_def fullEntrypointUrl_def strip_trailing_slashes_def
          normalize_leading_slashes_def asc_def)
  show ?thesis
    unfolding Let_def
    using gated res no_payment_header_challenge [of ?req
        "\<lparr>payToAddress = asc ''0x1b'', agentBaseUrl = asc ''https://a.example/'',
               price = asc ''0.05'', currency = asc ''USDC''\<rparr>"
        "\<lparr>decodePayment = (\<lambda>h. Some ()),
               findMatchingPaymentRequirements = (\<lambda>rs p. Some (hd rs)),
               facilitator_verify = (\<lambda>p r. Verification True None None),
               facilitator_settle = (\<lambda>p r. Settlement True (asc ''receipt'')),
               app_fetch = (\<lambda>r. \<lparr>status = 200, statusText = asc ''OK'', resp_headers = Map.empty,
                                   body = ()\<rparr>)\<rparr>"]
    by simp
qed

lemma payment_gate_verified:
  assumes "x_payment req = Some h" and "h \<noteq> []"
    and "decodePayment env h = Some p"
    and "findMatchingPaymentRequirements env [paymentRequirement cfg req] p = Some sel"
    and "facilitator_verify env p sel = Verification True reason payer"
    and "status (app_fetch env req) < 400"
  shows "fst (payment_gate cfg env req) =
           responseWithHeader (app_fetch env req) (facilitator_settle env p sel)"
  using assms by (simp add: payment_gate_def Let_def)

text \<open>
  C9. For a gated request whose payment header decodes, matches the requirement and is
  verified by the facilitator, and whose worker response has a status below 400: when
  \<open>settle\<close> throws, returns nothing or reports no success, the caller still gets the
  worker's body, status and status text, with the worker's headers (\<open>Content-Type\<close>
  defaulted to \<open>application/json\<close>); the response a successful settlement would have
  produced differs from it only in the \<open>X-PAYMENT-RESPONSE\<close> header.
\<close>

theorem settlement_failure_keeps_result:
  assumes "payment_gated (pathname req)"
    and "x_payment req = Some h" and "h \<noteq> []"
    and "decodePayment env h = Some p"
    and "findMatchingPaymentRequirements env [paymentRequirement cfg req] p = Some sel"
    and "facilitator_verify env p sel = Verification True reason payer"
    and "status (app_fetch env req) < 400"
    and "facilitator_settle env p sel = SettleThrows \<or> facilitator_settle env p sel = NoSettlement \<or>
         facilitator_settle env p sel = Settlement False hdr"
  shows "status (fst (entrypoint_fetch cfg env req)) = status (app_fetch env req) \<and>
         statusText (fst (entrypoint_fetch cfg env req)) = statusText (app_fetch env req) \<and>
         body (fst (entrypoint_fetch cfg env req)) = WorkerBody (body (app_fetch env req)) \<and>
         (\<forall>k. k \<noteq> asc ''content-type'' \<longrightarrow>
              resp_headers (fst (entrypoint_fetch cfg env req)) k = resp_headers (app_fetch env req) k) \<and>
         resp_headers (fst (entrypoint_fetch cfg env req)) (asc ''content-type'') =
           (case resp_headers (app_fetch env req) (asc ''content-type'') of
              None \<Rightarrow> Some (asc ''application/json'') | Some v \<Rightarrow> Some v) \<and>
         fst (entrypoint_fetch cfg (env\<lparr>facilitator_settle := \<lambda>p r. Settlement True ok_hdr\<rparr>) req) =
           (fst (entrypoint_fetch cfg env req))
             \<lparr>resp_headers := (resp_headers (fst (entrypoint_fetch cfg env req)))
                                 (asc ''x-payment-response'' \<mapsto> ok_hdr)\<rparr>"
proof -
  let ?a = "app_fetch env req"
  let ?env' = "env\<lparr>facilitator_settle := \<lambda>p r. Settlement True ok_hdr\<rparr>"
  have r: "fst (entrypoint_fetch cfg env req) = responseWithHeader ?a (facilitator_settle env p sel)"
    using assms(1) payment_gate_verified [OF assms(2-7)] by (simp add: entrypoint_fetch_def)
  have "fst (payment_gate cfg ?env' req) =
          responseWithHeader (app_fetch ?env' req) (facilitator_settle ?env' p sel)"
    by (rule payment_gate_verified [of req h ?env' p cfg sel reason payer]) (use assms in simp_all)
  then have r': "fst (entrypoint_fetch cfg ?env' req) = responseWithHeader ?a (Settlement True ok_hdr)"
    using assms(1) by (simp add: entrypoint_fetch_def)
  have failed: "responseWithHeader ?a (facilitator_settle env p sel) = responseWithHeader ?a SettleThrows"
    using assms(8) by (auto simp add: responseWithHeader_def)
  have ne: "asc ''x-payment-response'' \<noteq> asc ''content-type''" by (simp add: asc_def)
  show ?thesis
    unfolding r r' failed using ne
    by (auto simp add: responseWithHeader_def Let_def split: option.splits)
qed

theorem settlement_failure_keeps_result_witness:
  "(let req = \<lparr>pathname = asc ''/entrypoints/search%20luma%20events/invoke'', search = [],
               x_payment = Some (asc ''proof''), discord_callback = None\<rparr>;
        cfg = \<lparr>payToAddress = asc ''0x1b'', agentBaseUrl = asc ''https://a.example'',
               price = asc ''0.05'', currency = asc ''USDC''\<rparr>;
        env = \<lparr>decodePayment = (\<lambda>h. Some ()),
               findMatchingPaymentRequirements = (\<lambda>rs p. Some (hd rs)),
               facilitator_verify = (\<lambda>p r. Verification True None None),
               facilitator_settle = (\<lambda>p r. SettleThrows),
               app_fetch = (\<lambda>r. \<lparr>status = 200, statusText = asc ''OK'', resp_headers = Map.empty,
                                   body = asc ''events''\<rparr>)\<rparr>
    in status (fst (entrypoint_fetch cfg env req)) = 200 \<and>
       body (fst (entrypoint_fetch cfg env req)) = WorkerBody (asc ''events'') \<and>
       resp_headers (fst (entrypoint_fetch cfg env req)) (asc ''x-payment-response'') = None)"
proof -
  let ?req = "\<lparr>pathname = asc ''/entrypoints/search%20luma%20events/invoke'', search = [],
               x_payment = Some (asc ''proof''), discord_callback = None\<rparr>"
  let ?cfg = "\<lparr>payToAddress = asc ''0x1b'', agentBaseUrl = asc ''https://a.example'',
               price = asc ''0.05'', currency = asc ''USDC''\<rparr>"
  let ?env = "\<lparr>decodePayment = (\<lambda>h. Some ()),
               findMatchingPaymentRequirements = (\<lambda>rs p. Some (hd rs)),
               facilitator_verify = (\<lambda>p r. Verification True None None),
               facilitator_settle = (\<lambda>p r. SettleThrows),
               app_fetch = (\<lambda>r. \<lparr>status = 200, statusText = asc ''OK'', resp_headers = Map.empty,
                                   body = asc ''events''\<rparr>)\<rparr>"
  have gated: "payment_gated (pathname ?req)"
    by (simp add: payment_gated_def isSummariseEndpoint_def isSearchEndpoint_def asc_def)
  have h: "asc ''proof'' \<noteq> []" by (simp add: asc_def)
  have ne: "asc ''x-payment-response'' \<noteq> asc ''content-type''" by (simp add: asc_def)
  from settlement_failure_keeps_result [where req = ?req and cfg = ?cfg and env = ?env
      and h = "asc ''proof''" and p = "()" and sel = "paymentRequirement ?cfg ?req"
      and reason = None and payer = None and hdr = "[]" and ok_hdr = "[]", OF gated _ h]
  have "status (fst (entrypoint_fetch ?cfg ?env ?req)) = 200 \<and>
        body (fst (entrypoint_fetch ?cfg ?env ?req)) = WorkerBody (asc ''events'') \<and>
        (\<forall>k. k \<noteq> asc ''content-type'' \<longrightarrow>
              resp_headers (fst (entrypoint_fetch ?cfg ?env ?req)) k = None)"
    by simp
  with ne show ?thesis unfolding Let_def by simp
qed


section \<open>Properties of trimming\<close>

lemma dropWhile_unchanged: "xs = [] \<or> \<not> P (hd xs) \<Longrightarrow> dropWhile P xs = xs"
  by (cases xs) auto




lemma trim_unchanged:
  assumes "s = [] \<or> (\<not> is_ws (hd s) \<and> \<not> is_ws (last s))"
  shows "trim s = s"
proof (cases "s = []")
  case True then show ?thesis by (simp add: trim_def)
next
  case False
  with assms have h: "\<not> is_ws (hd s)" and l: "\<not> is_ws (last s)" by auto
  have 1: "dropWhile is_ws s = s" using h False by (simp add: dropWhile_unchanged)
  have "dropWhile is_ws (rev s) = rev s"
    using l False by (intro dropWhile_unchanged) (simp add: hd_rev)
  with 1 show ?thesis by (simp add: trim_def)
qed










section \<open>Evaluating the scans on concrete texts\<close>

lemma replace_all_cb_Cons:
  "replace_all_cb re cb st off k prev (c # cs) =
     (if 0 < k then replace_all_cb re cb st (Suc off) (k - 1) (Some c) cs
      else case re prev (c # cs) of
             None \<Rightarrow> c # replace_all_cb re cb st (Suc off) 0 (Some c) cs
           | Some n \<Rightarrow>
               if n = 0 then (case cb st [] off of (st', r) \<Rightarrow> r @ c # replace_all_cb re cb st' (Suc off) 0 (Some c) cs)
               else (case cb st (take n (c # cs)) off of
                       (st', r) \<Rightarrow> r @ replace_all_cb re cb st' (Suc off) (n - 1) (Some c) cs))"
  by (cases k) (auto split: option.splits nat.splits)

lemma global_matches_Cons:
  "global_matches re k prev (c # cs) =
     (if 0 < k then global_matches re (k - 1) (Some c) cs
      else case re prev (c # cs) of
             None \<Rightarrow> global_matches re 0 (Some c) cs
           | Some n \<Rightarrow>
               if n = 0 then [] # global_matches re 0 (Some c) cs
               else take n (c # cs) # global_matches re (n - 1) (Some c) cs)"
  by (cases k) (auto split: option.splits nat.splits)

lemmas regex_defs =
  is_ws_def is_line_terminator_def is_digit_def trim_def line_start_def canonicalize_def
  greeting_at_def not_newline_def greeting_re_def bullet_def bullet_greeting_re_def
  bullet_group1_def keep_first_greeting_def newlines_re_def drop_optional_newline_def
  hello_re_def check_mark_def payment_status_re_def card_def payment_prompt_re_def link_def
  pay_link_re_def not_ws_def pay_url_re_def please_pay_re_def not_close_bracket_def
  iso_timestamp_re_def bracketed_year_re_def summariser_re_def replace_all_def

lemmas chain_defs =
  fix_greeting_bullet_def remove_duplicate_greetings_def remove_hello_def
  remove_payment_fragments_def remove_timestamps_def discord_sanitize_def
  telegram_sanitize_def or_no_content_def no_content_message_def dedupe_greetings_def

section \<open>Properties of the Callback Dispatcher\<close>





lemma handleDiscordCallback_absent:
  "cb_token req = Some t \<Longrightarrow> t \<noteq> [] \<Longrightarrow> decodeURIComponent t = Some d \<Longrightarrow> pending d = None \<Longrightarrow>
   handleDiscordCallback env pending req =
     (Failure 404 (asc ''Invalid or expired callback token''), pending, [])"
  by (simp add: handleDiscordCallback_def)

lemma handleTelegramCallback_absent:
  "cb_token req = Some t \<Longrightarrow> t \<noteq> [] \<Longrightarrow> decodeURIComponent t = Some d \<Longrightarrow> pending d = None \<Longrightarrow>
   handleTelegramCallback env pending req =
     (Failure 404 (asc ''Invalid or expired callback token''), pending, [])"
  by (simp add: handleTelegramCallback_def)






lemma discord_content_hi:
  "discord_content (Some (JObj [(asc ''summary'', JStr (asc ''hi''))])) = Some (asc ''hi'')"
proof -
  have s: "discord_summary (Some (JObj [(asc ''summary'', JStr (asc ''hi''))])) = Some (asc ''hi'')"
    by (simp add: discord_summary_def get_prop_def or_else_def truthy_def as_string_def asc_def)
  have c: "discord_sanitize (asc ''hi'') = asc ''hi''"
    by (simp add: chain_defs regex_defs asc_def replace_all_cb_Cons Let_def
          del: replace_all_cb.simps(2,3))
  have t: "or_no_content (asc ''hi'') = asc ''hi''"
    by (simp add: or_no_content_def trim_def is_ws_def asc_def)
  show ?thesis by (simp add: discord_content_def s c t)
qed

lemma decode_tok1: "decodeURIComponent (asc ''tok1'') = Some (asc ''tok1'')"
  by (simp add: decodeURIComponent_def asc_def)





lemma sweep_discord_expired: "pd d = Some data \<Longrightarrow> d_expiresAt data < now \<Longrightarrow> sweep_discord now pd d = None"
  by (simp add: sweep_discord_def)

lemma sweep_telegram_expired: "pt d = Some data \<Longrightarrow> t_expiresAt data < now \<Longrightarrow> sweep_telegram now pt d = None"
  by (simp add: sweep_telegram_def)

lemma discord_calls_ignores_expiry:
  "discord_calls env (data\<lparr>d_expiresAt := e\<rparr>) d content = discord_calls env data d content"
  by (simp add: discord_calls_def Let_def split: option.splits)

lemma telegram_calls_ignores_expiry:
  "telegram_calls env (data\<lparr>t_expiresAt := e\<rparr>) m = telegram_calls env data m"
  by (simp add: telegram_calls_def Let_def split: option.splits)

lemma telegram_messageText_ignores_expiry:
  "telegram_messageText (data\<lparr>t_expiresAt := e\<rparr>) r = telegram_messageText data r"
  by (simp add: telegram_messageText_def)

lemma handleDiscordCallback_ignores_expiry:
  "fst (handleDiscordCallback env (pd(d \<mapsto> data\<lparr>d_expiresAt := e\<rparr>)) req) =
     fst (handleDiscordCallback env (pd(d \<mapsto> data)) req) \<and>
   snd (snd (handleDiscordCallback env (pd(d \<mapsto> data\<lparr>d_expiresAt := e\<rparr>)) req)) =
     snd (snd (handleDiscordCallback env (pd(d \<mapsto> data)) req))"
  by (simp add: handleDiscordCallback_def discord_calls_ignores_expiry Let_def
      split: option.splits)

lemma handleTelegramCallback_ignores_expiry:
  "fst (handleTelegramCallback env (pt(d \<mapsto> data\<lparr>t_expiresAt := e\<rparr>)) req) =
     fst (handleTelegramCallback env (pt(d \<mapsto> data)) req) \<and>
   snd (snd (handleTelegramCallback env (pt(d \<mapsto> data\<lparr>t_expiresAt := e\<rparr>)) req)) =
     snd (snd (handleTelegramCallback env (pt(d \<mapsto> data)) req))"
  by (auto simp add: handleTelegramCallback_def telegram_calls_ignores_expiry
      telegram_messageText_ignores_expiry Let_def split: option.splits)

text \<open>
  C2, as the claim states it: an entry whose \<open>expiresAt\<close> (1000) is before the time of the
  callback (2000) and that no sweep has removed yet is found by the handler, which
  answers success and posts the summary.
\<close>

theorem expired_entry_delivered_counterexample:
  "(let data = \<lparr>d_applicationId = asc ''app'', d_channelId = asc ''c'', d_guildId = None,
                d_lookbackMinutes = 60, d_paymentMessageId = None, d_expiresAt = 1000\<rparr>;
        now = 2000;
        pending = [asc ''tok1'' \<mapsto> data];
        env = \<lparr>post_result = FetchOk, cleanup_result = FetchOk, timed_out = False,
               TELEGRAM_BOT_TOKEN = None\<rparr>;
        req = \<lparr>cb_token = Some (asc ''tok1''),
               cb_result = Some (JObj [(asc ''summary'', JStr (asc ''hi''))])\<rparr>
    in d_expiresAt data < now \<and>
       fst (handleDiscordCallback env pending req) = Success \<and>
       snd (snd (handleDiscordCallback env pending req)) =
         [DiscordPost (asc ''app'') (asc ''tok1'') (asc ''hi'')])"
proof -
  have ne: "asc ''tok1'' \<noteq> []" by (simp add: asc_def)
  show ?thesis
    unfolding Let_def using ne
    by (simp add: handleDiscordCallback_def decode_tok1 discord_content_hi discord_calls_def Let_def)
qed

text \<open>
  C2, amended. The handlers do not read \<open>expiresAt\<close>: an entry found under the decoded
  token is consumed and delivered whatever its \<open>expiresAt\<close>, and changing the \<open>expiresAt\<close> of
  a stored entry changes neither the response nor the requests. Expiry is enforced by the
  periodic sweep alone: a sweep at time \<open>now\<close> removes exactly the entries with
  \<open>expiresAt < now\<close>, and from then on a callback with such an entry's token is answered
  with 404 and issues no platform request.
\<close>

theorem expired_entry_rejected_after_sweep:
  "(cb_token req = Some t \<and> t \<noteq> [] \<and> decodeURIComponent t = Some d \<longrightarrow>
      (pd d = Some dd \<and> discord_content (cb_result req) = Some content \<longrightarrow>
         handleDiscordCallback env pd req = (Success, pd(d := None), discord_calls env dd d content)) \<and>
      (pt d = Some td \<and> TELEGRAM_BOT_TOKEN env = Some botToken \<and> botToken \<noteq> [] \<and>
       telegram_messageText td (cb_result req) = Some m \<longrightarrow>
         handleTelegramCallback env pt req = (Success, pt(d := None), telegram_calls env td m)) \<and>
      (pd d = Some dd \<and> d_expiresAt dd < now \<longrightarrow>
         handleDiscordCallback env (sweep_discord now pd) req =
           (Failure 404 (asc ''Invalid or expired callback token''), sweep_discord now pd, [])) \<and>
      (pt d = Some td \<and> t_expiresAt td < now \<longrightarrow>
         handleTelegramCallback env (sweep_telegram now pt) req =
           (Failure 404 (asc ''Invalid or expired callback token''), sweep_telegram now pt, []))) \<and>
   sweep_discord now pd k = (case pd k of None \<Rightarrow> None
                             | Some x \<Rightarrow> if d_expiresAt x < now then None else Some x) \<and>
   sweep_telegram now pt k = (case pt k of None \<Rightarrow> None
                              | Some x \<Rightarrow> if t_expiresAt x < now then None else Some x) \<and>
   fst (handleDiscordCallback env (pd(k \<mapsto> dd\<lparr>d_expiresAt := e\<rparr>)) req) =
     fst (handleDiscordCallback env (pd(k \<mapsto> dd)) req) \<and>
   snd (snd (handleDiscordCallback env (pd(k \<mapsto> dd\<lparr>d_expiresAt := e\<rparr>)) req)) =
     snd (snd (handleDiscordCallback env (pd(k \<mapsto> dd)) req)) \<and>
   fst (handleTelegramCallback env (pt(k \<mapsto> td\<lparr>t_expiresAt := e\<rparr>)) req) =
     fst (handleTelegramCallback env (pt(k \<mapsto> td)) req) \<and>
   snd (snd (handleTelegramCallback env (pt(k \<mapsto> td\<lparr>t_expiresAt := e\<rparr>)) req)) =
     snd (snd (handleTelegramCallback env (pt(k \<mapsto> td)) req))"
proof -
  have main: "(cb_token req = Some t \<and> t \<noteq> [] \<and> decodeURIComponent t = Some d \<longrightarrow>
      (pd d = Some dd \<and> discord_content (cb_result req) = Some content \<longrightarrow>
         handleDiscordCallback env pd req = (Success, pd(d := None), discord_calls env dd d content)) \<and>
      (pt d = Some td \<and> TELEGRAM_BOT_TOKEN env = Some botToken \<and> botToken \<noteq> [] \<and>
       telegram_messageText td (cb_result req) = Some m \<longrightarrow>
         handleTelegramCallback env pt req = (Success, pt(d := None), telegram_calls env td m)) \<and>
      (pd d = Some dd \<and> d_expiresAt dd < now \<longrightarrow>
         handleDiscordCallback env (sweep_discord now pd) req =
           (Failure 404 (asc ''Invalid or expired callback token''), sweep_discord now pd, [])) \<and>
      (pt d = Some td \<and> t_expiresAt td < now \<longrightarrow>
         handleTelegramCallback env (sweep_telegram now pt) req =
           (Failure 404 (asc ''Invalid or expired callback token''), sweep_telegram now pt, []))) \<and>
   sweep_discord now pd k = (case pd k of None \<Rightarrow> None
                             | Some x \<Rightarrow> if d_expiresAt x < now then None else Some x) \<and>
   sweep_telegram now pt k = (case pt k of None \<Rightarrow> None
                              | Some x \<Rightarrow> if t_expiresAt x < now then None else Some x)"
    using handleDiscordCallback_absent [of req t d "sweep_discord now pd" env]
          handleTelegramCallback_absent [of req t d "sweep_telegram now pt" env]
          sweep_discord_expired [of pd d dd now] sweep_telegram_expired [of pt d td now]
    by (auto simp add: handleDiscordCallback_def handleTelegramCallback_def Let_def
          sweep_discord_def sweep_telegram_def)
  from main
    handleDiscordCallback_ignores_expiry [where env = env and pd = pd and d = k and data = dd
      and e = e and req = req]
    handleTelegramCallback_ignores_expiry [where env = env and pt = pt and d = k and data = td
      and e = e and req = req]
  show ?thesis by blast
qed

theorem expired_entry_rejected_after_sweep_witness:
  "(let data = \<lparr>d_applicationId = asc ''app'', d_channelId = asc ''c'', d_guildId = None,
                d_lookbackMinutes = 60, d_paymentMessageId = None, d_expiresAt = 1000\<rparr>;
        pending = [asc ''tok1'' \<mapsto> data];
        env = \<lparr>post_result = FetchOk, cleanup_result = FetchOk, timed_out = False,
               TELEGRAM_BOT_TOKEN = None\<rparr>;
        req = \<lparr>cb_token = Some (asc ''tok1''),
               cb_result = Some (JObj [(asc ''summary'', JStr (asc ''hi''))])\<rparr>
    in handleDiscordCallback env pending req =
         (Success, pending(asc ''tok1'' := None), [DiscordPost (asc ''app'') (asc ''tok1'') (asc ''hi'')]) \<and>
       handleDiscordCallback env (sweep_discord 2000 pending) req =
         (Failure 404 (asc ''Invalid or expired callback token''), sweep_discord 2000 pending, []))"
proof -
  let ?data = "\<lparr>d_applicationId = asc ''app'', d_channelId = asc ''c'', d_guildId = None,
                d_lookbackMinutes = 60, d_paymentMessageId = None, d_expiresAt = 1000\<rparr>"
  let ?env = "\<lparr>post_result = FetchOk, cleanup_result = FetchOk, timed_out = False,
               TELEGRAM_BOT_TOKEN = None\<rparr>"
  let ?req = "\<lparr>cb_token = Some (asc ''tok1''),
               cb_result = Some (JObj [(asc ''summary'', JStr (asc ''hi''))])\<rparr>"
  have ne: "asc ''tok1'' \<noteq> []" by (simp add: asc_def)
  from expired_entry_rejected_after_sweep [where req = ?req and t = "asc ''tok1''"
      and d = "asc ''tok1''" and pd = "[asc ''tok1'' \<mapsto> ?data]" and dd = ?data
      and content = "asc ''hi''" and env = ?env and now = 2000 and pt = Map.empty
      and botToken = "[]" and m = "[]" and k = "[]" and e = 0]
  show ?thesis
    unfolding Let_def using ne
    by (simp add: decode_tok1 discord_content_hi discord_calls_def)
qed




section \<open>Properties of the sanitization chain\<close>

lemma replace_first_no_match: "no_match re prev s \<Longrightarrow> replace_first re f prev s = s"
  by (induction s arbitrary: prev) auto

lemma replace_all_cb_no_match: "no_match re prev s \<Longrightarrow> replace_all_cb re cb st off 0 prev s = s"
  by (induction s arbitrary: prev st off) auto

lemma replace_all_no_match: "no_match re None s \<Longrightarrow> replace_all re r s = s"
  by (simp add: replace_all_def replace_all_cb_no_match)

lemma greeting_at_Cons: "greeting_at s \<Longrightarrow> \<exists>cs. s = 71 # cs"
  by (cases s) (auto simp add: greeting_at_def asc_def)

lemma greeting_re_Some:
  "greeting_re prev s = Some n \<Longrightarrow>
     line_start prev \<and> greeting_at s \<and> n = length (takeWhile not_newline s) \<and> 0 < n"
  by (auto simp add: greeting_re_def not_newline_def split: if_splits dest!: greeting_at_Cons)

lemma greeting_re_Nil: "greeting_re prev [] = None"
  by (simp add: greeting_re_def greeting_at_def asc_def)

lemma keep_first_seen: "st \<noteq> Index (- 1) \<Longrightarrow> keep_first_greeting st m off = (st, [])"
  by (simp add: keep_first_greeting_def)

lemma keep_first_unseen: "keep_first_greeting (Index (- 1)) m off = (Text m, m)"
  by (simp add: keep_first_greeting_def)

lemma dedupe_unchanged_aux:
  "length (global_matches greeting_re k prev s) \<le> (if st = Index (- 1) then 1 else 0) \<Longrightarrow>
   replace_all_cb greeting_re keep_first_greeting st off k prev s = drop k s"
proof (induction s arbitrary: k prev st off)
  case Nil
  then show ?case by (simp add: greeting_re_Nil)
next
  case (Cons c cs)
  show ?case
  proof (cases k)
    case (Suc k')
    with Cons.prems Cons.IH [of k' "Some c" st "Suc off"] show ?thesis by simp
  next
    case 0
    show ?thesis
    proof (cases "greeting_re prev (c # cs)")
      case None
      with 0 Cons.prems Cons.IH [of 0 "Some c" st "Suc off"] show ?thesis by simp
    next
      case (Some n)
      from greeting_re_Some [OF Some] have "0 < n" by blast
      then obtain n' where n: "n = Suc n'" by (auto dest: gr0_implies_Suc)
      from Cons.prems 0 Some n have st: "st = Index (- 1)"
        by (auto split: if_splits)
      from Cons.prems 0 Some n st have rest: "length (global_matches greeting_re n' (Some c) cs) \<le> 0"
        by simp
      have "Text (take (Suc n') (c # cs)) \<noteq> Index (- 1)" by simp
      with rest Cons.IH [of n' "Some c" "Text (take (Suc n') (c # cs))" "Suc off"]
      have "replace_all_cb greeting_re keep_first_greeting (Text (take (Suc n') (c # cs))) (Suc off) n' (Some c) cs = drop n' cs"
        by simp
      with 0 Some n st show ?thesis
        by (simp add: keep_first_unseen)
    qed
  qed
qed

lemma dedupe_unchanged: "length (greeting_lines s) \<le> 1 \<Longrightarrow> dedupe_greetings s = s"
  using dedupe_unchanged_aux [of 0 None s "Index (- 1)" 0]
  by (simp add: greeting_lines_def dedupe_greetings_def)

lemma str_includes_Cons: "\<not> str_includes (c # cs) p \<Longrightarrow> \<not> str_includes cs p \<and> \<not> starts_with (c # cs) p"
  by simp

lemma newlines_unchanged_aux:
  "\<not> str_includes s [10, 10, 10] \<Longrightarrow>
   replace_all_cb newlines_re (\<lambda>st m off. ((), [10, 10])) () off 0 prev s = s"
proof (induction s arbitrary: off prev rule: length_induct)
  case (1 s)
  show ?case
  proof (cases s)
    case Nil
    then show ?thesis by (simp add: newlines_re_def)
  next
    case (Cons c cs)
    note s = Cons
    from "1.prems" s have cs: "\<not> str_includes cs [10, 10, 10]" by simp
    show ?thesis
    proof (cases "starts_with s [10, 10]")
      case False
      with s have "newlines_re prev (c # cs) = None" by (simp add: newlines_re_def)
      with s cs "1.IH" [rule_format, of cs "Suc off" "Some c"] show ?thesis by simp
    next
      case True
      with s obtain r where r: "c = 10" "cs = 10 # r" by (cases cs) auto
      from "1.prems" s r have r3: "r = [] \<or> hd r \<noteq> 10" by (cases r) auto
      then have "takeWhile (\<lambda>c. c = 10) r = []" by (cases r) auto
      with s r have m: "newlines_re prev (c # cs) = Some (Suc (Suc 0))"
        by (simp add: newlines_re_def)
      from cs r have "\<not> str_includes r [10, 10, 10]" by simp
      with "1.IH" [rule_format, of r "Suc (Suc off)" "Some 10"] s r
      have "replace_all_cb newlines_re (\<lambda>st m off. ((), [10, 10])) () (Suc (Suc off)) 0 (Some 10) r = r"
        by simp
      with s r m show ?thesis by simp
    qed
  qed
qed

lemma newlines_unchanged: "\<not> str_includes s [10, 10, 10] \<Longrightarrow> replace_all newlines_re [10, 10] s = s"
  by (simp add: replace_all_def newlines_unchanged_aux)

lemma clean_text_steps:
  assumes "clean_text s"
  shows "trim s = s" and "fix_greeting_bullet s = s" and "remove_duplicate_greetings s = s"
    and "remove_hello s = s" and "remove_payment_fragments s = s"
proof -
  show t: "trim s = s" using assms by (intro trim_unchanged) (simp add: clean_text_def)
  show "fix_greeting_bullet s = s"
    using assms by (simp add: clean_text_def fix_greeting_bullet_def replace_first_no_match)
  show "remove_duplicate_greetings s = s"
    using assms t
    by (simp add: clean_text_def remove_duplicate_greetings_def dedupe_unchanged newlines_unchanged)
  show "remove_hello s = s"
    using assms by (simp add: clean_text_def remove_hello_def replace_first_no_match)
  show "remove_payment_fragments s = s"
    using assms t by (simp add: clean_text_def remove_payment_fragments_def replace_all_no_match)
qed

text \<open>
  C4, amended. The chain is not idempotent in general, but it leaves clean text
  unchanged: a text that is not empty, has no white space at either end, no run of
  three newlines and at most one greeting line, and in which none of the chain's
  patterns matches, is returned as it is by the Telegram chain and (with the timestamp
  patterns also absent) by the Discord chain, and the final empty-check and trim keep it.
\<close>

theorem clean_text_unchanged:
  "(clean_text s \<longrightarrow> telegram_sanitize s = s \<and> or_no_content (telegram_sanitize s) = s) \<and>
   (clean_discord_text s \<longrightarrow> discord_sanitize s = s \<and> or_no_content (discord_sanitize s) = s)"
proof -
  have a: "telegram_sanitize s = s \<and> or_no_content (telegram_sanitize s) = s" if c: "clean_text s"
  proof -
    have "telegram_sanitize s = s"
      by (simp add: telegram_sanitize_def clean_text_steps [OF c])
    moreover have "s \<noteq> []" using c by (simp add: clean_text_def)
    ultimately show ?thesis by (simp add: or_no_content_def clean_text_steps(1) [OF c])
  qed
  have b: "discord_sanitize s = s \<and> or_no_content (discord_sanitize s) = s" if d: "clean_discord_text s"
  proof -
    from d have c: "clean_text s" by (simp add: clean_discord_text_def)
    have "remove_timestamps s = s"
      using d clean_text_steps(1) [OF c]
      by (simp add: clean_discord_text_def remove_timestamps_def replace_all_no_match)
    then have "discord_sanitize s = s"
      by (simp add: discord_sanitize_def clean_text_steps [OF c])
    moreover have "s \<noteq> []" using c by (simp add: clean_text_def)
    ultimately show ?thesis by (simp add: or_no_content_def clean_text_steps(1) [OF c])
  qed
  from a b show ?thesis by blast
qed

text \<open>
  C4, as the claim states it: the "Hello!" removal uses a pattern without the \<open>g\<close> flag
  and removes only the first such line. A summary with two of them loses one per pass:
  the second pass changes the result of the first, in both handlers' chains.
\<close>

theorem sanitize_not_idempotent_counterexample:
  "(let s = asc ''Hello! Here is what happened'' @ [10] @ asc ''Hello! Here is what happened'' @
            [10] @ asc ''X''
    in discord_sanitize s = asc ''Hello! Here is what happened'' @ [10] @ asc ''X'' \<and>
       discord_sanitize (discord_sanitize s) = asc ''X'' \<and>
       telegram_sanitize s = asc ''Hello! Here is what happened'' @ [10] @ asc ''X'' \<and>
       telegram_sanitize (telegram_sanitize s) = asc ''X'')"
proof -
  let ?s = "asc ''Hello! Here is what happened'' @ [10] @ asc ''Hello! Here is what happened'' @
            [10] @ asc ''X''"
  let ?t = "asc ''Hello! Here is what happened'' @ [10] @ asc ''X''"
  have d1: "discord_sanitize ?s = ?t"
    by (simp add: chain_defs regex_defs asc_def replace_all_cb_Cons Let_def
          del: replace_all_cb.simps(2,3))
  have d2: "discord_sanitize ?t = asc ''X''"
    by (simp add: chain_defs regex_defs asc_def replace_all_cb_Cons Let_def
          del: replace_all_cb.simps(2,3))
  have t1: "telegram_sanitize ?s = ?t"
    by (simp add: chain_defs regex_defs asc_def replace_all_cb_Cons Let_def
          del: replace_all_cb.simps(2,3))
  have t2: "telegram_sanitize ?t = asc ''X''"
    by (simp add: chain_defs regex_defs asc_def replace_all_cb_Cons Let_def
          del: replace_all_cb.simps(2,3))
  show ?thesis unfolding Let_def by (simp only: d1 d2 t1 t2 simp_thms)
qed

theorem clean_text_unchanged_witness:
  "clean_discord_text (asc ''Good morning! All quiet.'') \<and>
   discord_sanitize (asc ''Good morning! All quiet.'') = asc ''Good morning! All quiet.'' \<and>
   telegram_sanitize (asc ''Good morning! All quiet.'') = asc ''Good morning! All quiet.''"
proof -
  have c: "clean_discord_text (asc ''Good morning! All quiet.'')"
    by (simp add: clean_discord_text_def clean_text_def greeting_lines_def regex_defs asc_def
          global_matches_Cons Let_def del: global_matches.simps(2,3))
  then have "clean_text (asc ''Good morning! All quiet.'')" by (simp add: clean_discord_text_def)
  with c clean_text_unchanged [of "asc ''Good morning! All quiet.''"] show ?thesis by simp
qed


section \<open>The duplicate-greeting removal\<close>

lemma starts_with_iff: "starts_with s p \<longleftrightarrow> (\<exists>r. s = p @ r)"
  by (induction s p rule: starts_with.induct) auto

lemma starts_with_append_left:
  assumes "starts_with (xs @ ys) p" and "ys = [] \<or> hd ys \<notin> set p"
  shows "starts_with xs p"
proof -
  from assms(1) obtain r where r: "xs @ ys = p @ r" by (auto simp add: starts_with_iff)
  show ?thesis
  proof (cases "length p \<le> length xs")
    case True
    with r have "p = take (length p) xs"
      by (metis append_eq_conv_conj take_append diff_is_0_eq take_0 append_Nil2)
    then have "xs = p @ drop (length p) xs" by (metis append_take_drop_id)
    then show ?thesis by (auto simp add: starts_with_iff)
  next
    case False
    then have lt: "length xs < length p" by simp
    from r have "take (length p) (xs @ ys) = p" by simp
    with lt have p: "p = xs @ take (length p - length xs) ys" by simp
    from lt p have "take (length p - length xs) ys \<noteq> []" by (metis append_Nil2 less_irrefl)
    then have ys: "ys \<noteq> []" by auto
    then have "hd ys = hd (take (length p - length xs) ys)"
      using lt by (cases ys) (auto simp add: take_Cons')
    moreover have "hd (take (length p - length xs) ys) \<in> set (take (length p - length xs) ys)"
      using \<open>take (length p - length xs) ys \<noteq> []\<close> by (rule hd_in_set)
    ultimately have "hd ys \<in> set p" using p by (metis Un_iff set_append)
    with assms(2) ys show ?thesis by simp
  qed
qed

lemma starts_with_takeWhile:
  assumes "starts_with s p" and "\<forall>c \<in> set p. P c"
  shows "starts_with (takeWhile P s) p"
proof -
  have "s = takeWhile P s @ dropWhile P s" by simp
  moreover have "dropWhile P s = [] \<or> hd (dropWhile P s) \<notin> set p"
    using assms(2) hd_dropWhile [of P s] by auto
  ultimately show ?thesis using assms(1) starts_with_append_left [of "takeWhile P s" "dropWhile P s" p]
    by simp
qed

lemma starts_with_append_right: "starts_with xs p \<Longrightarrow> starts_with (xs @ ys) p"
  by (auto simp add: starts_with_iff)

lemma landing:
  "st \<noteq> Index (- 1) \<Longrightarrow> drop k s = [] \<or> hd (drop k s) = 10 \<Longrightarrow>
   replace_all_cb greeting_re keep_first_greeting st off k prev s = [] \<or>
   hd (replace_all_cb greeting_re keep_first_greeting st off k prev s) = 10"
proof (induction s arbitrary: k off prev)
  case Nil
  then show ?case by (simp add: greeting_re_Nil)
next
  case (Cons c cs)
  show ?case
  proof (cases k)
    case (Suc k')
    with Cons.prems Cons.IH [of k' "Suc off" "Some c"] show ?thesis by simp
  next
    case 0
    with Cons.prems have c: "c = 10" by simp
    then have "greeting_re prev (c # cs) = None"
      by (auto simp add: greeting_re_def dest: greeting_at_Cons)
    with 0 c show ?thesis by simp
  qed
qed

lemma match_lands:
  assumes "greeting_re prev (c # cs) = Some (Suc n)"
  shows "drop n cs = [] \<or> hd (drop n cs) = 10"
    and "take (Suc n) (c # cs) = takeWhile not_newline (c # cs)"
proof -
  from greeting_re_Some [OF assms] have n: "Suc n = length (takeWhile not_newline (c # cs))" by blast
  have "drop n cs = drop (Suc n) (c # cs)" by simp
  also have "\<dots> = dropWhile not_newline (c # cs)"
    unfolding n by (rule dropWhile_eq_drop [symmetric])
  finally have d: "drop n cs = dropWhile not_newline (c # cs)" .
  show "drop n cs = [] \<or> hd (drop n cs) = 10"
    unfolding d using hd_dropWhile [of not_newline "c # cs"] by (auto simp add: not_newline_def)
  show "take (Suc n) (c # cs) = takeWhile not_newline (c # cs)"
    unfolding n by (rule takeWhile_eq_take [symmetric])
qed

lemma deleted_prefix:
  "st \<noteq> Index (- 1) \<Longrightarrow> lit_ok p \<Longrightarrow>
   starts_with (replace_all_cb greeting_re keep_first_greeting st off 0 prev s) p \<Longrightarrow>
   starts_with s p"
proof (induction s arbitrary: p prev off)
  case Nil
  then show ?case by (cases p) (simp_all add: greeting_re_Nil lit_ok_def)
next
  case (Cons c cs)
  from Cons.prems(2) obtain a p' where p: "p = a # p'" "a \<noteq> 10" "10 \<notin> set p'"
    by (cases p) (auto simp add: lit_ok_def)
  show ?case
  proof (cases "greeting_re prev (c # cs)")
    case None
    with Cons.prems(3) p have ca: "c = a"
      and r: "starts_with (replace_all_cb greeting_re keep_first_greeting st (Suc off) 0 (Some c) cs) p'"
      by auto
    show ?thesis
    proof (cases "p' = []")
      case True
      with p ca show ?thesis by simp
    next
      case False
      with p have "lit_ok p'" by (simp add: lit_ok_def)
      from Cons.IH [OF Cons.prems(1) this r] p ca show ?thesis by simp
    qed
  next
    case (Some n)
    from greeting_re_Some [OF Some] have "0 < n" by blast
    then obtain n' where n: "n = Suc n'" by (auto dest: gr0_implies_Suc)
    let ?R = "replace_all_cb greeting_re keep_first_greeting st (Suc off) n' (Some c) cs"
    from Some n have sm: "greeting_re prev (c # cs) = Some (Suc n')" by simp
    have "drop n' cs = [] \<or> hd (drop n' cs) = 10" by (rule match_lands(1) [OF sm])
    from landing [OF Cons.prems(1) this] have R: "?R = [] \<or> hd ?R = 10" .
    from Cons.prems(3) Some n Cons.prems(1) p have "starts_with ?R (a # p')"
      by (simp add: keep_first_seen)
    with R p(2) have False by (cases ?R) auto
    then show ?thesis ..
  qed
qed

lemma kept_prefix:
  "lit_ok p \<Longrightarrow>
   starts_with (replace_all_cb greeting_re keep_first_greeting (Index (- 1)) off 0 prev s) p \<Longrightarrow>
   starts_with s p"
proof (induction s arbitrary: p prev off)
  case Nil
  then show ?case by (cases p) (simp_all add: greeting_re_Nil lit_ok_def)
next
  case (Cons c cs)
  from Cons.prems(1) obtain a p' where p: "p = a # p'" "a \<noteq> 10" "10 \<notin> set p'"
    by (cases p) (auto simp add: lit_ok_def)
  show ?case
  proof (cases "greeting_re prev (c # cs)")
    case None
    with Cons.prems(2) p have ca: "c = a"
      and r: "starts_with (replace_all_cb greeting_re keep_first_greeting (Index (- 1)) (Suc off) 0 (Some c) cs) p'"
      by auto
    show ?thesis
    proof (cases "p' = []")
      case True
      with p ca show ?thesis by simp
    next
      case False
      with p have "lit_ok p'" by (simp add: lit_ok_def)
      from Cons.IH [OF this r] p ca show ?thesis by simp
    qed
  next
    case (Some n)
    from greeting_re_Some [OF Some] have "0 < n" by blast
    then obtain n' where n: "n = Suc n'" by (auto dest: gr0_implies_Suc)
    let ?M = "takeWhile not_newline (c # cs)"
    let ?R = "replace_all_cb greeting_re keep_first_greeting (Text ?M) (Suc off) n' (Some c) cs"
    have io: "Text ?M \<noteq> Index (- 1)" by simp
    from Some n have sm: "greeting_re prev (c # cs) = Some (Suc n')" by simp
    have "drop n' cs = [] \<or> hd (drop n' cs) = 10" by (rule match_lands(1) [OF sm])
    from landing [OF io this] have R: "?R = [] \<or> hd ?R = 10" .
    have M: "take (Suc n') (c # cs) = ?M" by (rule match_lands(2) [OF sm])
    have "replace_all_cb greeting_re keep_first_greeting (Index (- 1)) off 0 prev (c # cs) = ?M @ ?R"
      using Some n M by (simp add: keep_first_unseen del: take_Suc_Cons takeWhile.simps)
    with Cons.prems(2) have "starts_with (?M @ ?R) p" by simp
    moreover from R p have "?R = [] \<or> hd ?R \<notin> set p" by auto
    ultimately have "starts_with ?M p" by (rule starts_with_append_left)
    then have "starts_with (?M @ dropWhile not_newline (c # cs)) p" by (rule starts_with_append_right)
    then show ?thesis by (simp only: takeWhile_dropWhile_id)
  qed
qed

lemma greeting_lits:
  "lit_ok (asc ''Good morning!'')" "lit_ok (asc ''Good afternoon!'')" "lit_ok (asc ''Good evening!'')"
  by (simp_all add: lit_ok_def asc_def)

lemma greeting_at_deleted:
  "st \<noteq> Index (- 1) \<Longrightarrow> greeting_at (replace_all_cb greeting_re keep_first_greeting st off 0 prev s) \<Longrightarrow>
   greeting_at s"
  unfolding greeting_at_def
  using deleted_prefix [OF _ greeting_lits(1)] deleted_prefix [OF _ greeting_lits(2)]
        deleted_prefix [OF _ greeting_lits(3)]
  by blast

lemma greeting_at_kept:
  "greeting_at (replace_all_cb greeting_re keep_first_greeting (Index (- 1)) off 0 prev s) \<Longrightarrow> greeting_at s"
  unfolding greeting_at_def
  using kept_prefix [OF greeting_lits(1)] kept_prefix [OF greeting_lits(2)]
        kept_prefix [OF greeting_lits(3)]
  by blast

lemma global_matches_skip:
  "global_matches re (length xs + k) prev (xs @ ys) =
     global_matches re k (if xs = [] then prev else Some (last xs)) ys"
  by (induction xs arbitrary: prev) auto

lemma no_greeting_after_delete:
  "st \<noteq> Index (- 1) \<Longrightarrow>
   (k = 0 \<longrightarrow> s = [] \<or> hd s = 10 \<or> prev' = prev) \<Longrightarrow>
   (0 < k \<longrightarrow> drop k s = [] \<or> hd (drop k s) = 10) \<Longrightarrow>
   global_matches greeting_re 0 prev'
     (replace_all_cb greeting_re keep_first_greeting st off k prev s) = []"
proof (induction s arbitrary: k off prev prev')
  case Nil
  then show ?case by (simp add: greeting_re_Nil)
next
  case (Cons c cs)
  show ?case
  proof (cases k)
    case (Suc k')
    have "global_matches greeting_re 0 prev'
            (replace_all_cb greeting_re keep_first_greeting st (Suc off) k' (Some c) cs) = []"
    proof (rule Cons.IH [OF Cons.prems(1)])
      show "k' = 0 \<longrightarrow> cs = [] \<or> hd cs = 10 \<or> prev' = Some c"
        using Cons.prems(3) Suc by auto
      show "0 < k' \<longrightarrow> drop k' cs = [] \<or> hd (drop k' cs) = 10"
        using Cons.prems(3) Suc by auto
    qed
    with Suc show ?thesis by simp
  next
    case 0
    show ?thesis
    proof (cases "greeting_re prev (c # cs)")
      case None
      let ?D = "replace_all_cb greeting_re keep_first_greeting st (Suc off) 0 (Some c) cs"
      have out: "replace_all_cb greeting_re keep_first_greeting st off k prev (c # cs) = c # ?D"
        using 0 None by simp
      have nomatch: "greeting_re prev' (c # ?D) = None"
      proof (cases "c = 10")
        case True
        then show ?thesis by (auto simp add: greeting_re_def dest: greeting_at_Cons)
      next
        case False
        with Cons.prems(2) 0 have pp: "prev' = prev" by simp
        show ?thesis
        proof (rule ccontr)
          assume "greeting_re prev' (c # ?D) \<noteq> None"
          then have ls: "line_start prev" and g: "greeting_at (c # ?D)"
            using pp by (auto simp add: greeting_re_def split: if_splits)
          from g out 0 have "greeting_at (replace_all_cb greeting_re keep_first_greeting st off 0 prev (c # cs))"
            by simp
          from greeting_at_deleted [OF Cons.prems(1) this] have "greeting_at (c # cs)" .
          with ls None show False by (simp add: greeting_re_def)
        qed
      qed
      have "global_matches greeting_re 0 (Some c) ?D = []"
        by (rule Cons.IH [OF Cons.prems(1)]) simp_all
      with out nomatch show ?thesis by simp
    next
      case (Some n)
      from greeting_re_Some [OF Some] have "0 < n" by blast
      then obtain n' where n: "n = Suc n'" by (auto dest: gr0_implies_Suc)
      from Some n have sm: "greeting_re prev (c # cs) = Some (Suc n')" by simp
      have land: "drop n' cs = [] \<or> hd (drop n' cs) = 10" by (rule match_lands(1) [OF sm])
      have "global_matches greeting_re 0 prev'
              (replace_all_cb greeting_re keep_first_greeting st (Suc off) n' (Some c) cs) = []"
      proof (rule Cons.IH [OF Cons.prems(1)])
        show "n' = 0 \<longrightarrow> cs = [] \<or> hd cs = 10 \<or> prev' = Some c" using land by auto
        show "0 < n' \<longrightarrow> drop n' cs = [] \<or> hd (drop n' cs) = 10" using land by auto
      qed
      with 0 Some n Cons.prems(1) show ?thesis by (simp add: keep_first_seen)
    qed
  qed
qed

lemma greeting_at_first_line:
  assumes "greeting_at s"
  shows "greeting_at (takeWhile not_newline s @ r)"
proof -
  have nn: "\<forall>c \<in> set (asc ''Good morning!''). not_newline c"
    "\<forall>c \<in> set (asc ''Good afternoon!''). not_newline c"
    "\<forall>c \<in> set (asc ''Good evening!''). not_newline c"
    by (simp_all add: asc_def not_newline_def)
  from assms show ?thesis
    unfolding greeting_at_def
    using starts_with_append_right [OF starts_with_takeWhile [OF _ nn(1)], of s r]
          starts_with_append_right [OF starts_with_takeWhile [OF _ nn(2)], of s r]
          starts_with_append_right [OF starts_with_takeWhile [OF _ nn(3)], of s r]
    by blast
qed

lemma takeWhile_first_line:
  assumes "r = [] \<or> hd r = 10"
  shows "takeWhile not_newline (takeWhile not_newline s @ r) = takeWhile not_newline s"
proof -
  have "takeWhile not_newline r = []" using assms by (cases r) (auto simp add: not_newline_def)
  moreover have "\<forall>x \<in> set (takeWhile not_newline s). not_newline x"
    by (auto dest: set_takeWhileD)
  ultimately show ?thesis by (simp add: takeWhile_append2)
qed

lemma dedupe_keeps_first_aux:
  "global_matches greeting_re 0 prev
     (replace_all_cb greeting_re keep_first_greeting (Index (- 1)) off 0 prev s) =
   take 1 (global_matches greeting_re 0 prev s)"
proof (induction s arbitrary: prev off)
  case Nil
  show ?case by (simp add: greeting_re_Nil)
next
  case (Cons c cs)
  show ?case
  proof (cases "greeting_re prev (c # cs)")
    case None
    let ?D = "replace_all_cb greeting_re keep_first_greeting (Index (- 1)) (Suc off) 0 (Some c) cs"
    have out: "replace_all_cb greeting_re keep_first_greeting (Index (- 1)) off 0 prev (c # cs) = c # ?D"
      using None by simp
    have nomatch: "greeting_re prev (c # ?D) = None"
    proof (rule ccontr)
      assume "greeting_re prev (c # ?D) \<noteq> None"
      then have ls: "line_start prev" and g: "greeting_at (c # ?D)"
        by (auto simp add: greeting_re_def split: if_splits)
      from g out have "greeting_at (replace_all_cb greeting_re keep_first_greeting (Index (- 1)) off 0 prev (c # cs))"
        by simp
      from greeting_at_kept [OF this] have "greeting_at (c # cs)" .
      with ls None show False by (simp add: greeting_re_def)
    qed
    from out nomatch None Cons.IH [of "Some c" "Suc off"] show ?thesis by simp
  next
    case (Some n)
    from greeting_re_Some [OF Some] have "0 < n" and ls: "line_start prev" and g: "greeting_at (c # cs)"
      by blast+
    then obtain n' where n: "n = Suc n'" by (auto dest: gr0_implies_Suc)
    from Some n have sm: "greeting_re prev (c # cs) = Some (Suc n')" by simp
    let ?M = "takeWhile not_newline (c # cs)"
    let ?R = "replace_all_cb greeting_re keep_first_greeting (Text ?M) (Suc off) n' (Some c) cs"
    have io: "Text ?M \<noteq> Index (- 1)" by simp
    have land: "drop n' cs = [] \<or> hd (drop n' cs) = 10" by (rule match_lands(1) [OF sm])
    from landing [OF io land] have R: "?R = [] \<or> hd ?R = 10" .
    have M: "take (Suc n') (c # cs) = ?M" by (rule match_lands(2) [OF sm])
    from greeting_re_Some [OF sm] have lenM: "length ?M = Suc n'" by simp
    from g obtain cs' where "c # cs = 71 # cs'" by (auto dest: greeting_at_Cons)
    then have c: "not_newline c" by (simp add: not_newline_def)
    then obtain M' where M': "?M = c # M'" "length M' = n'" using lenM by auto
    have out: "replace_all_cb greeting_re keep_first_greeting (Index (- 1)) off 0 prev (c # cs) = ?M @ ?R"
      using sm M by (simp add: keep_first_unseen del: take_Suc_Cons takeWhile.simps)
    have "greeting_at (?M @ ?R)" using g by (rule greeting_at_first_line)
    moreover have "takeWhile not_newline (?M @ ?R) = ?M" using R by (rule takeWhile_first_line)
    ultimately have m: "greeting_re prev (?M @ ?R) = Some (Suc n')"
      using ls lenM by (simp add: greeting_re_def del: takeWhile.simps)
    have after: "global_matches greeting_re 0 (if M' = [] then Some c else Some (last M')) ?R = []"
    proof (rule no_greeting_after_delete [OF io])
      show "n' = 0 \<longrightarrow> cs = [] \<or> hd cs = 10 \<or> (if M' = [] then Some c else Some (last M')) = Some c"
        using land by auto
      show "0 < n' \<longrightarrow> drop n' cs = [] \<or> hd (drop n' cs) = 10" using land by auto
    qed
    have "global_matches greeting_re 0 prev (?M @ ?R) =
            global_matches greeting_re 0 prev (c # (M' @ ?R))"
      by (simp only: M' append_Cons)
    also have "\<dots> = take (Suc n') (c # (M' @ ?R)) # global_matches greeting_re n' (Some c) (M' @ ?R)"
      using m by (simp only: M' append_Cons global_matches.simps option.case nat.case)
    also have "take (Suc n') (c # (M' @ ?R)) = ?M"
      using M' by (simp del: takeWhile.simps)
    also have "global_matches greeting_re n' (Some c) (M' @ ?R) =
               global_matches greeting_re (length M' + 0) (Some c) (M' @ ?R)"
      using M' by simp
    also have "\<dots> = global_matches greeting_re 0 (if M' = [] then Some c else Some (last M')) ?R"
      by (rule global_matches_skip)
    also note after
    finally have lhs: "global_matches greeting_re 0 prev (?M @ ?R) = [?M]" .
    have "global_matches greeting_re 0 prev (c # cs) =
            ?M # global_matches greeting_re n' (Some c) cs"
      using sm M by (simp del: take_Suc_Cons takeWhile.simps)
    with lhs out show ?thesis by (simp del: takeWhile.simps)
  qed
qed

text \<open>
  C5, amended. The duplicate-greeting removal keeps the first greeting line and replaces
  every later one by the empty string: the text it produces has exactly the first
  greeting line of its input as its only greeting line (and none if the input has none).
  This holds for the text right after that replacement; the later steps of the chain
  can still change which greeting lines the delivered text has.
\<close>

theorem dedupe_keeps_first_greeting:
  "greeting_lines (dedupe_greetings s) = take 1 (greeting_lines s)"
  by (simp add: greeting_lines_def dedupe_greetings_def dedupe_keeps_first_aux)

text \<open>
  C5, as the claim states it: a summary whose greeting line "Good morning!" occurs twice,
  followed by a line on which a leaked payment sentence precedes the same greeting. The
  duplicate removal deletes the second greeting line; the payment-fragment removal, which
  runs later, then leaves the third greeting at the start of its line, and the delivered
  text of either handler has the greeting line twice.
\<close>

theorem duplicate_greeting_delivered_counterexample:
  "(let g = asc ''Good morning!'';
        s = g @ [10] @ g @ [10] @ asc ''To summarise this channel, please pay via x402.'' @ g
    in greeting_lines s = [g, g] \<and>
       or_no_content (telegram_sanitize s) = g @ [10, 10] @ g \<and>
       or_no_content (discord_sanitize s) = g @ [10, 10] @ g \<and>
       greeting_lines (g @ [10, 10] @ g) = [g, g])"
proof -
  let ?g = "asc ''Good morning!''"
  let ?s = "?g @ [10] @ ?g @ [10] @ asc ''To summarise this channel, please pay via x402.'' @ ?g"
  have a: "greeting_lines ?s = [?g, ?g]"
    by (simp add: greeting_lines_def regex_defs asc_def global_matches_Cons Let_def
          del: global_matches.simps(2,3))
  have t: "telegram_sanitize ?s = ?g @ [10, 10] @ ?g"
    by (simp add: chain_defs regex_defs asc_def replace_all_cb_Cons Let_def
          del: replace_all_cb.simps(2,3))
  have d: "discord_sanitize ?s = ?g @ [10, 10] @ ?g"
    by (simp add: chain_defs regex_defs asc_def replace_all_cb_Cons Let_def
          del: replace_all_cb.simps(2,3))
  have o: "or_no_content (?g @ [10, 10] @ ?g) = ?g @ [10, 10] @ ?g"
    by (simp add: or_no_content_def trim_def is_ws_def asc_def)
  have b: "greeting_lines (?g @ [10, 10] @ ?g) = [?g, ?g]"
    by (simp add: greeting_lines_def regex_defs asc_def global_matches_Cons Let_def
          del: global_matches.simps(2,3))
  show ?thesis unfolding Let_def by (simp only: a t d o b simp_thms)
qed

theorem dedupe_keeps_first_greeting_witness:
  "greeting_lines (dedupe_greetings
      (asc ''Good morning! A'' @ [10] @ asc ''x'' @ [10] @ asc ''Good evening! B'')) =
   [asc ''Good morning! A'']"
proof -
  have "greeting_lines (asc ''Good morning! A'' @ [10] @ asc ''x'' @ [10] @ asc ''Good evening! B'') =
        [asc ''Good morning! A'', asc ''Good evening! B'']"
    by (simp add: greeting_lines_def regex_defs asc_def global_matches_Cons Let_def
          del: global_matches.simps(2,3))
  with dedupe_keeps_first_greeting
    [of "asc ''Good morning! A'' @ [10] @ asc ''x'' @ [10] @ asc ''Good evening! B''"]
  show ?thesis by simp
qed

end
